theory Spec2Isabelle
  imports Complex_Main "HOL-Library.Word"
begin

section \<open>Python values used by the pipeline\<close>

text \<open>
  A Python \<open>str\<close> is a sequence of Unicode code points, and the file-name limit, the
  forbidden characters (some of them CJK punctuation) and the whitespace classes are all
  about code points, so a string is a list of code points here. \<open>asc\<close> embeds an ASCII
  literal. A file's content is a list of bytes.
\<close>

type_synonym pystr = "nat list"

type_synonym byte = "8 word"

definition asc :: "string \<Rightarrow> pystr" where
  "asc s = map of_char s"

text \<open>
  \<open>str.isspace\<close> on one character. \<open>str.strip\<close>, \<open>str.split\<close> and the class
  \<open>\s\<close> of \<open>re\<close> on a \<open>str\<close> pattern all use this same set.
\<close>

definition py_isspace :: "nat \<Rightarrow> bool" where
  "py_isspace c \<longleftrightarrow>
     (9 \<le> c \<and> c \<le> 13) \<or> (28 \<le> c \<and> c \<le> 32) \<or> c = 0x85 \<or> c = 0xA0 \<or> c = 0x1680 \<or>
     (0x2000 \<le> c \<and> c \<le> 0x200A) \<or> c = 0x2028 \<or> c = 0x2029 \<or> c = 0x202F \<or>
     c = 0x205F \<or> c = 0x3000"

definition py_lstrip :: "pystr \<Rightarrow> pystr" where
  "py_lstrip s = dropWhile py_isspace s"

definition py_rstrip :: "pystr \<Rightarrow> pystr" where
  "py_rstrip s = rev (dropWhile py_isspace (rev s))"

definition py_strip :: "pystr \<Rightarrow> pystr" where
  "py_strip s = py_rstrip (py_lstrip s)"

definition py_startswith :: "pystr \<Rightarrow> pystr \<Rightarrow> bool" where
  "py_startswith s p \<longleftrightarrow> take (length p) s = p"

text \<open>\<open>s.split()\<close>: the maximal runs of non-whitespace characters, in order.\<close>

function py_split :: "pystr \<Rightarrow> pystr list" where
  "py_split s =
     (case dropWhile py_isspace s of
        [] \<Rightarrow> []
      | c # cs \<Rightarrow> (c # takeWhile (\<lambda>d. \<not> py_isspace d) cs)
                 # py_split (dropWhile (\<lambda>d. \<not> py_isspace d) cs))"
  by pat_completeness auto
termination
proof (relation "measure length")
  fix s :: pystr and c :: nat and cs :: pystr
  assume eq: "dropWhile py_isspace s = c # cs"
  have "length (dropWhile (\<lambda>d. \<not> py_isspace d) cs) \<le> length cs"
    by (rule length_dropWhile_le)
  moreover have "length (c # cs) \<le> length s"
    using length_dropWhile_le [of py_isspace s] by (simp only: eq)
  ultimately show "(dropWhile (\<lambda>d. \<not> py_isspace d) cs, s) \<in> measure length"
    by simp
qed simp

declare py_split.simps [simp del]

text \<open>Starting or ending with a whitespace character, as observations on a string.\<close>

definition starts_with_space :: "pystr \<Rightarrow> bool" where
  "starts_with_space s = (case s of [] \<Rightarrow> False | c # _ \<Rightarrow> py_isspace c)"

definition ends_with_space :: "pystr \<Rightarrow> bool" where
  "ends_with_space s = starts_with_space (rev s)"

section \<open>File-name sanitisation (\<open>TextProcessor.clean_filename\<close>)\<close>

text \<open>
  The character class of \<open>FILENAME_SPECIAL_CHARS\<close>. In the class, \<open>\/\<close>, \<open>\[\<close> and
  \<open>\]\<close> are the escaped characters themselves, so the backslash is not a member; the
  last four members are the CJK full stop, comma, question mark and exclamation mark.
\<close>

definition FILENAME_SPECIAL_CHARS :: "nat list" where
  "FILENAME_SPECIAL_CHARS =
     [0x2F, 0x3A, 0x2A, 0x3F, 0x22, 0x3C, 0x3E, 0x7C, 0x25, 0x23, 0x24, 0x40, 0x21, 0x5E,
      0x26, 0x28, 0x29, 0x5B, 0x5D, 0x7B, 0x7D, 0x3B, 0x60, 0x2C, 0x2E, 0x7E, 0x2B, 0x3D,
      0x3002, 0xFF0C, 0xFF1F, 0xFF01]"

definition special_chars_pattern :: "nat \<Rightarrow> bool" where
  "special_chars_pattern c \<longleftrightarrow> c \<in> set FILENAME_SPECIAL_CHARS"

text \<open>The class \<open>[-\s]\<close> of \<open>consecutive_spaces_pattern\<close>: the hyphen or whitespace.\<close>

definition consecutive_spaces_pattern :: "nat \<Rightarrow> bool" where
  "consecutive_spaces_pattern c \<longleftrightarrow> c = 0x2D \<or> py_isspace c"

text \<open>
  \<open>re.sub(r'<[^>]+>', '', text)\<close>. Scanning from the left, a match starts at a \<open><\<close>
  that is followed by at least one character other than \<open>>\<close> and then a \<open>>\<close>; the
  greedy class takes every character up to the next \<open>>\<close>, and taking fewer cannot help,
  since the character after a shorter run is not \<open>>\<close>. The match is dropped and the scan
  resumes behind it; a \<open><\<close> that starts no match is kept.
\<close>

function sub_markup :: "pystr \<Rightarrow> pystr" where
  "sub_markup [] = []"
| "sub_markup (c # cs) =
     (if c = 0x3C \<and> takeWhile (\<lambda>d. d \<noteq> 0x3E) cs \<noteq> [] \<and> dropWhile (\<lambda>d. d \<noteq> 0x3E) cs \<noteq> []
      then sub_markup (tl (dropWhile (\<lambda>d. d \<noteq> 0x3E) cs))
      else c # sub_markup cs)"
  by pat_completeness auto
termination
proof (relation "measure length")
  fix c :: nat and cs :: "nat list"
  have "length (tl (dropWhile (\<lambda>d. d \<noteq> 0x3E) cs)) \<le> length cs"
    using length_dropWhile_le [of "\<lambda>d. d \<noteq> 0x3E" cs] by simp
  then show "(tl (dropWhile (\<lambda>d. d \<noteq> 0x3E) cs), c # cs) \<in> measure length" by simp
qed simp_all

text \<open>\<open>special_chars_pattern.sub('', s)\<close>: every member of the class is dropped.\<close>

definition sub_special :: "pystr \<Rightarrow> pystr" where
  "sub_special s = filter (\<lambda>c. \<not> special_chars_pattern c) s"

text \<open>
  \<open>consecutive_spaces_pattern.sub(' ', s)\<close>: every maximal run of hyphens and whitespace
  becomes one space.
\<close>

function sub_spaces :: "pystr \<Rightarrow> pystr" where
  "sub_spaces [] = []"
| "sub_spaces (c # cs) =
     (if consecutive_spaces_pattern c
      then 0x20 # sub_spaces (dropWhile consecutive_spaces_pattern cs)
      else c # sub_spaces cs)"
  by pat_completeness auto
termination
  by (relation "measure length") (auto simp: less_Suc_eq_le length_dropWhile_le)

definition MAX_FILENAME_LENGTH :: nat where
  "MAX_FILENAME_LENGTH = 200"

text \<open>
  On a \<open>str\<close> argument none of the steps can raise, so the function returns a plain
  string.
\<close>

definition clean_filename :: "pystr \<Rightarrow> pystr" where
  "clean_filename text =
     (let cleaned_text = sub_markup text;
          cleaned_text = sub_special cleaned_text;
          cleaned_text = py_strip (sub_spaces cleaned_text)
      in if length cleaned_text > MAX_FILENAME_LENGTH
         then py_rstrip (take MAX_FILENAME_LENGTH cleaned_text)
         else cleaned_text)"

text \<open>
  The shape \<open>sub_spaces\<close> leaves behind: the only character of the class \<open>[-\s]\<close> is the
  space, and no two of them are adjacent.
\<close>

fun normalised :: "pystr \<Rightarrow> bool" where
  "normalised [] = True"
| "normalised [c] = (if consecutive_spaces_pattern c then c = 0x20 else True)"
| "normalised (c # d # cs) =
     ((if consecutive_spaces_pattern c then c = 0x20 \<and> \<not> consecutive_spaces_pattern d else True)
      \<and> normalised (d # cs))"

section \<open>Exceptions and the file system\<close>

text \<open>
  An exception is its class and the text \<open>str(error)\<close> gives for it, which is what the
  handlers of the program read. \<open>OtherException\<close> stands for any other subclass of
  \<open>Exception\<close> that a library raises (an error of the document parsers or of the
  generation model).
\<close>

datatype py_exception =
    FileNotFoundError pystr
  | FileExistsError pystr
  | OSError pystr
  | ValueError pystr
  | RuntimeError pystr
  | IndexError pystr
  | TypeError pystr
  | AttributeError pystr
  | OtherException pystr

fun str_of :: "py_exception \<Rightarrow> pystr" where
  "str_of (FileNotFoundError m) = m"
| "str_of (FileExistsError m) = m"
| "str_of (OSError m) = m"
| "str_of (ValueError m) = m"
| "str_of (RuntimeError m) = m"
| "str_of (IndexError m) = m"
| "str_of (TypeError m) = m"
| "str_of (AttributeError m) = m"
| "str_of (OtherException m) = m"

type_synonym 'a result = "py_exception + 'a"

text \<open>
  A path names a readable file with its bytes, or something that exists and cannot be
  opened for reading (a directory, a file without permission), with the text of the
  \<open>OSError\<close> that opening it raises; a path outside the map does not exist.
\<close>

datatype node = File "byte list" | Unreadable pystr

type_synonym filesystem = "pystr \<rightharpoonup> node"

definition os_path_exists :: "filesystem \<Rightarrow> pystr \<Rightarrow> bool" where
  "os_path_exists fsys p \<longleftrightarrow> fsys p \<noteq> None"

text \<open>
  Opening a path and reading all of its bytes. For a missing path the runtime raises
  \<open>FileNotFoundError\<close>; its text shows the path between quotes (the escapes that
  \<open>repr\<close> adds for unusual characters are left out).
\<close>

definition open_read :: "filesystem \<Rightarrow> pystr \<Rightarrow> byte list result" where
  "open_read fsys p =
     (case fsys p of
        None \<Rightarrow> Inl (FileNotFoundError
                  (asc ''[Errno 2] No such file or directory: '' @ [0x27] @ p @ [0x27]))
      | Some (File bs) \<Rightarrow> Inr bs
      | Some (Unreadable m) \<Rightarrow> Inl (OSError m))"

section \<open>Text decoding\<close>

datatype encoding = UTF8 | GBK | Latin1 | UTF16

text \<open>
  What the program takes from its platform and libraries: the GBK and UTF-16 codecs, the
  two document parsers and the path functions. \<open>None\<close> from a decoder is
  \<open>UnicodeDecodeError\<close>. \<open>utf16_decode_replace\<close> is decoding with
  \<open>errors='replace'\<close>, which never raises. \<open>docx_paragraphs\<close> gives the text of each
  paragraph of a document, \<open>ole_streams\<close> the named streams of a compound file, each
  with the outcome of reading it. \<open>path_suffix_lower\<close> is
  \<open>Path(p).suffix.lower()\<close>.
\<close>

record platform =
  gbk_decode :: "byte list \<Rightarrow> pystr option"
  utf16_decode :: "byte list \<Rightarrow> pystr option"
  utf16_decode_replace :: "byte list \<Rightarrow> pystr"
  docx_paragraphs :: "byte list \<Rightarrow> pystr list result"
  ole_streams :: "byte list \<Rightarrow> (pystr \<Rightarrow> byte list result option) result"
  path_suffix_lower :: "pystr \<Rightarrow> pystr"
  path_dirname :: "pystr \<Rightarrow> pystr"
  path_join :: "pystr \<Rightarrow> pystr \<Rightarrow> pystr"

text \<open>
  Strict UTF-8 over byte values: the shortest form only, no surrogates, nothing above
  \<open>U+10FFFF\<close>; a byte order mark is an ordinary character.
\<close>

definition utf8_cont :: "nat \<Rightarrow> bool" where
  "utf8_cont b \<longleftrightarrow> 0x80 \<le> b \<and> b \<le> 0xBF"

fun utf8_dec :: "nat list \<Rightarrow> pystr option" where
  "utf8_dec [] = Some []"
| "utf8_dec (b # bs) =
     (if b < 0x80 then map_option ((#) b) (utf8_dec bs)
      else if 0xC2 \<le> b \<and> b \<le> 0xDF then
        (case bs of
           c1 # r \<Rightarrow>
             if utf8_cont c1
             then map_option ((#) ((b - 0xC0) * 64 + (c1 - 0x80))) (utf8_dec r)
             else None
         | _ \<Rightarrow> None)
      else if 0xE0 \<le> b \<and> b \<le> 0xEF then
        (case bs of
           c1 # c2 # r \<Rightarrow>
             if (if b = 0xE0 then 0xA0 else 0x80) \<le> c1
                \<and> c1 \<le> (if b = 0xED then 0x9F else 0xBF) \<and> utf8_cont c2
             then map_option ((#) ((b - 0xE0) * 4096 + (c1 - 0x80) * 64 + (c2 - 0x80)))
                    (utf8_dec r)
             else None
         | _ \<Rightarrow> None)
      else if 0xF0 \<le> b \<and> b \<le> 0xF4 then
        (case bs of
           c1 # c2 # c3 # r \<Rightarrow>
             if (if b = 0xF0 then 0x90 else 0x80) \<le> c1
                \<and> c1 \<le> (if b = 0xF4 then 0x8F else 0xBF) \<and> utf8_cont c2 \<and> utf8_cont c3
             then map_option
                    ((#) ((b - 0xF0) * 262144 + (c1 - 0x80) * 4096 + (c2 - 0x80) * 64
                          + (c3 - 0x80)))
                    (utf8_dec r)
             else None
         | _ \<Rightarrow> None)
      else None)"

definition utf8_decode :: "byte list \<Rightarrow> pystr option" where
  "utf8_decode bs = utf8_dec (map unat bs)"

text \<open>latin-1 maps every byte to the code point of the same value.\<close>

definition latin1_decode :: "byte list \<Rightarrow> pystr option" where
  "latin1_decode bs = Some (map unat bs)"

fun decode :: "platform \<Rightarrow> encoding \<Rightarrow> byte list \<Rightarrow> pystr option" where
  "decode pf UTF8 bs = utf8_decode bs"
| "decode pf GBK bs = gbk_decode pf bs"
| "decode pf Latin1 bs = latin1_decode bs"
| "decode pf UTF16 bs = utf16_decode pf bs"

text \<open>
  A file opened in text mode with the default \<open>newline\<close> translates \<open>\r\n\<close> and a
  lone \<open>\r\<close> to \<open>\n\<close> after decoding.
\<close>

fun universal_newlines :: "pystr \<Rightarrow> pystr" where
  "universal_newlines [] = []"
| "universal_newlines [c] = [if c = 13 then 10 else c]"
| "universal_newlines (c # d # cs) =
     (if c = 13 \<and> d = 10 then 10 # universal_newlines cs
      else if c = 13 then 10 # universal_newlines (d # cs)
      else c # universal_newlines (d # cs))"

section \<open>The file reader (\<open>FileReader\<close>)\<close>

definition encodings :: "encoding list" where
  "encodings = [UTF8, GBK, Latin1, UTF16]"

text \<open>
  The loop of \<open>_read_txt\<close> over the candidate encodings: the first one whose decoder
  does not raise gives the content, and the loop reports which one it was, as the log line
  of the source does. \<open>None\<close> is falling out of the loop.
\<close>

fun read_txt_loop :: "platform \<Rightarrow> encoding list \<Rightarrow> byte list \<Rightarrow> (encoding \<times> pystr) option" where
  "read_txt_loop pf [] bs = None"
| "read_txt_loop pf (e # es) bs =
     (case decode pf e bs of
        Some content \<Rightarrow> Some (e, universal_newlines content)
      | None \<Rightarrow> read_txt_loop pf es bs)"

definition cannot_decode :: pystr where
  "cannot_decode = [0x65E0, 0x6CD5, 0x89E3, 0x7801, 0x6587, 0x4EF6, 0x3A, 0x20]"

definition read_txt :: "platform \<Rightarrow> filesystem \<Rightarrow> pystr \<Rightarrow> pystr result" where
  "read_txt pf fsys file_path =
     (case open_read fsys file_path of
        Inl e \<Rightarrow> Inl e
      | Inr bs \<Rightarrow>
          (case read_txt_loop pf encodings bs of
             Some (encoding, content) \<Rightarrow> Inr content
           | None \<Rightarrow> Inl (ValueError (cannot_decode @ file_path))))"

text \<open>
  \<open>_read_docx\<close> and \<open>_read_doc\<close> hand the path to a parser, which is given the
  bytes of the file here. Both are reached only for a path that exists; what a parser
  raises for a path that cannot be opened is taken to be what opening it raises.
  \<open>join_lines\<close> is \<open>"\n".join(paragraphs)\<close>.
\<close>

fun join_lines :: "pystr list \<Rightarrow> pystr" where
  "join_lines [] = []"
| "join_lines [p] = p"
| "join_lines (p # q # ps) = p @ [10] @ join_lines (q # ps)"

definition read_docx :: "platform \<Rightarrow> filesystem \<Rightarrow> pystr \<Rightarrow> pystr result" where
  "read_docx pf fsys file_path =
     (case open_read fsys file_path of
        Inl e \<Rightarrow> Inl e
      | Inr bs \<Rightarrow>
          (case docx_paragraphs pf bs of
             Inl e \<Rightarrow> Inl e
           | Inr paragraphs \<Rightarrow> Inr (join_lines paragraphs)))"

text \<open>\<open>re.sub(r'\s+', ' ', s)\<close>: every maximal run of whitespace becomes one space.\<close>

function sub_whitespace :: "pystr \<Rightarrow> pystr" where
  "sub_whitespace [] = []"
| "sub_whitespace (c # cs) =
     (if py_isspace c
      then 0x20 # sub_whitespace (dropWhile py_isspace cs)
      else c # sub_whitespace cs)"
  by pat_completeness auto
termination
  by (relation "measure length") (auto simp: less_Suc_eq_le length_dropWhile_le)

definition not_a_word_document :: pystr where
  "not_a_word_document =
     [0x6587, 0x4EF6, 0x4E0D, 0x662F, 0x6709, 0x6548, 0x7684, 0x57, 0x6F, 0x72, 0x64,
      0x6587, 0x6863]"

text \<open>
  \<open>_read_doc\<close>. Decoding with \<open>errors='replace'\<close> cannot raise, so the latin-1
  handler of the source is never entered.
\<close>

definition read_doc :: "platform \<Rightarrow> filesystem \<Rightarrow> pystr \<Rightarrow> pystr result" where
  "read_doc pf fsys file_path =
     (case open_read fsys file_path of
        Inl e \<Rightarrow> Inl e
      | Inr bs \<Rightarrow>
          (case ole_streams pf bs of
             Inl e \<Rightarrow> Inl e
           | Inr ole \<Rightarrow>
               (case ole (asc ''WordDocument'') of
                  None \<Rightarrow> Inl (ValueError not_a_word_document)
                | Some (Inl e) \<Rightarrow> Inl e
                | Some (Inr doc_data) \<Rightarrow>
                    (let text = utf16_decode_replace pf doc_data;
                         text = filter (\<lambda>c. c \<noteq> 0) text;
                         text = sub_whitespace text
                     in Inr (py_strip text)))))"

definition file_missing :: pystr where
  "file_missing = [0x6587, 0x4EF6, 0x4E0D, 0x5B58, 0x5728, 0x3A, 0x20]"

definition unsupported_type :: pystr where
  "unsupported_type =
     [0x4E0D, 0x652F, 0x6301, 0x7684, 0x6587, 0x4EF6, 0x7C7B, 0x578B, 0x3A, 0x20]"

definition read_file :: "platform \<Rightarrow> filesystem \<Rightarrow> pystr \<Rightarrow> pystr result" where
  "read_file pf fsys file_path =
     (if \<not> os_path_exists fsys file_path
      then Inl (FileNotFoundError (file_missing @ file_path))
      else
        (let suffix = path_suffix_lower pf file_path
         in if suffix = asc ''.txt'' then read_txt pf fsys file_path
            else if suffix = asc ''.docx'' then read_docx pf fsys file_path
            else if suffix = asc ''.doc'' then read_doc pf fsys file_path
            else Inl (ValueError (unsupported_type @ suffix))))"

section \<open>The generation model\<close>

text \<open>
  The tokenizer and the model are used through three operations: encoding a text (with
  the token budget and the device the result is moved to), generating, and decoding. A
  keyword-argument dictionary is an association list. Generation samples, so what
  \<open>generate\<close> returns may differ from call to call: its first argument is the number
  of calls made before in the process. It returns a batch of token sequences.
\<close>

datatype pyval = PyInt int | PyBool bool | PyFloat rat

type_synonym kwargs = "(string \<times> pyval) list"

record input_encoding =
  input_ids :: "nat list"
  attention_mask :: "nat list"

record tokenizer_h =
  encode :: "pystr \<Rightarrow> nat \<Rightarrow> pystr option \<Rightarrow> input_encoding result"
  decode_ids :: "nat list \<Rightarrow> pystr result"

record model_h =
  generate :: "nat \<Rightarrow> input_encoding \<Rightarrow> kwargs \<Rightarrow> nat list list result"

text \<open>
  Loading from the model directory: the outcome of the \<open>n\<close>-th call of each
  \<open>from_pretrained\<close> in the process, whether CUDA is there, and the outcome of moving
  the \<open>n\<close>-th loaded model to a device (\<open>None\<close> is success).
\<close>

record hub =
  tokenizer_from_pretrained :: "nat \<Rightarrow> tokenizer_h result"
  model_from_pretrained :: "nat \<Rightarrow> model_h result"
  cuda_is_available :: bool
  model_to :: "nat \<Rightarrow> pystr \<Rightarrow> py_exception option"

text \<open>
  The state of the process outside a \<open>TextProcessor\<close>: the files, how often each
  \<open>from_pretrained\<close> has been called, and the keyword arguments of every call of
  \<open>model.generate\<close> so far, in order.
\<close>

record world =
  files :: filesystem
  tokenizer_loads :: nat
  weight_loads :: nat
  generate_calls :: "kwargs list"

section \<open>The text processor (\<open>TextProcessor\<close>)\<close>

record processor =
  model :: "model_h option"
  tokenizer :: "tokenizer_h option"
  device :: "pystr option"

definition TextProcessor_init :: processor where
  "TextProcessor_init = \<lparr>model = None, tokenizer = None, device = None\<rparr>"

definition LANGUAGE_PREFIXES :: "(pystr \<times> pystr) list" where
  "LANGUAGE_PREFIXES =
     [(asc ''en'', asc ''summarize English: ''),
      (asc ''zh'', [0x603B, 0x7ED3, 0x4E2D, 0x6587, 0x3A, 0x20]),
      (asc ''fr'', [0x72, 0xE9, 0x73, 0x75, 0x6D, 0x65, 0x20, 0x65, 0x6E, 0x20, 0x66, 0x72,
                    0x61, 0x6E, 0xE7, 0x61, 0x69, 0x73, 0x3A, 0x20]),
      (asc ''es'', [0x72, 0x65, 0x73, 0x75, 0x6D, 0x69, 0x72, 0x20, 0x65, 0x6E, 0x20, 0x65,
                    0x73, 0x70, 0x61, 0xF1, 0x6F, 0x6C, 0x3A, 0x20]),
      (asc ''de'', asc ''fasse zusammen auf Deutsch: ''),
      (asc ''ru'', [0x441, 0x434, 0x435, 0x43B, 0x430, 0x442, 0x44C, 0x20, 0x440, 0x435,
                    0x437, 0x44E, 0x43C, 0x435, 0x20, 0x43D, 0x430, 0x20, 0x440, 0x443,
                    0x441, 0x441, 0x43A, 0x43E, 0x43C, 0x3A, 0x20]),
      (asc ''ja'', [0x65E5, 0x672C, 0x8A9E, 0x3067, 0x8981, 0x7D04, 0x3057, 0x3066, 0x304F,
                    0x3060, 0x3055, 0x3044, 0x3A, 0x20]),
      (asc ''ko'', [0xD55C, 0xAD6D, 0xC5B4, 0xB85C, 0x20, 0xC694, 0xC57D, 0x3A, 0x20]),
      (asc ''ar'', [0x644, 0x62E, 0x635, 0x20, 0x628, 0x627, 0x644, 0x639, 0x631, 0x628,
                    0x64A, 0x629, 0x3A, 0x20]),
      (asc ''it'', asc ''riassumi in italiano: '')]"

text \<open>\<open>LANGUAGE_PREFIXES.get(language, LANGUAGE_PREFIXES["en"])\<close>\<close>

definition language_prefix :: "pystr \<Rightarrow> pystr" where
  "language_prefix language =
     (case map_of LANGUAGE_PREFIXES language of
        Some p \<Rightarrow> p
      | None \<Rightarrow> asc ''summarize English: '')"

definition model_load_failed :: pystr where
  "model_load_failed = [0x6A21, 0x578B, 0x52A0, 0x8F7D, 0x5931, 0x8D25, 0x3A, 0x20]"

text \<open>
  \<open>load_model\<close> returns nothing; \<open>Some e\<close> is the exception it raises. Each
  attribute is assigned as soon as its value is there, so a failure part of the way leaves
  the earlier assignments behind.
\<close>

definition load_model :: "hub \<Rightarrow> processor \<Rightarrow> world \<Rightarrow> py_exception option \<times> processor \<times> world" where
  "load_model hb self w =
     (if model self \<noteq> None \<and> tokenizer self \<noteq> None then (None, self, w)
      else
        (let w1 = w\<lparr>tokenizer_loads := tokenizer_loads w + 1\<rparr>
         in case tokenizer_from_pretrained hb (tokenizer_loads w) of
              Inl error \<Rightarrow> (Some (RuntimeError (model_load_failed @ str_of error)), self, w1)
            | Inr tok \<Rightarrow>
                (let self1 = self\<lparr>tokenizer := Some tok\<rparr>;
                     w2 = w1\<lparr>weight_loads := weight_loads w1 + 1\<rparr>
                 in case model_from_pretrained hb (weight_loads w1) of
                      Inl error \<Rightarrow>
                        (Some (RuntimeError (model_load_failed @ str_of error)), self1, w2)
                    | Inr mdl \<Rightarrow>
                        (let dev = (if cuda_is_available hb then asc ''cuda'' else asc ''cpu'');
                             self2 = self1\<lparr>model := Some mdl, device := Some dev\<rparr>
                         in case model_to hb (weight_loads w1) dev of
                              Some error \<Rightarrow>
                                (Some (RuntimeError (model_load_failed @ str_of error)),
                                 self2, w2)
                            | None \<Rightarrow> (None, self2, w2)))))"

text \<open>The two keyword-argument sets of \<open>model.generate\<close>, as the source writes them.\<close>

definition generation_params :: "int \<Rightarrow> int \<Rightarrow> kwargs" where
  "generation_params max_length min_length =
     [(''max_length'', PyInt max_length),
      (''min_length'', PyInt min_length),
      (''num_beams'', PyInt 4),
      (''early_stopping'', PyBool True),
      (''no_repeat_ngram_size'', PyInt 3),
      (''length_penalty'', PyFloat 2),
      (''repetition_penalty'', PyFloat (3 / 2)),
      (''temperature'', PyFloat (7 / 10)),
      (''do_sample'', PyBool True)]"

definition fallback_params :: "int \<Rightarrow> kwargs" where
  "fallback_params max_length =
     [(''max_length'', PyInt max_length),
      (''num_beams'', PyInt 1),
      (''early_stopping'', PyBool True)]"

text \<open>\<open>ids[0]\<close> on the batch that \<open>generate\<close> returns.\<close>

definition first_sequence :: "nat list list \<Rightarrow> nat list result" where
  "first_sequence batch =
     (case batch of
        [] \<Rightarrow> Inl (IndexError (asc ''index 0 is out of bounds for dimension 0 with size 0''))
      | ids # _ \<Rightarrow> Inr ids)"

text \<open>
  One call of \<open>model.generate\<close> followed by decoding its first sequence. The call is
  recorded in the world whether it succeeds or not.
\<close>

definition generate_decode ::
  "tokenizer_h \<Rightarrow> model_h \<Rightarrow> world \<Rightarrow> input_encoding \<Rightarrow> kwargs \<Rightarrow> pystr result \<times> world" where
  "generate_decode tok mdl w input params =
     (let w1 = w\<lparr>generate_calls := generate_calls w @ [params]\<rparr>
      in case generate mdl (length (generate_calls w)) input params of
           Inl error \<Rightarrow> (Inl error, w1)
         | Inr batch \<Rightarrow>
             (case first_sequence batch of
                Inl error \<Rightarrow> (Inl error, w1)
              | Inr ids \<Rightarrow> (decode_ids tok ids, w1)))"

text \<open>
  The removal of an echoed prompt prefix from the primary decode (lines 194 to 198 of
  \<open>processor.py\<close>).
\<close>

definition remove_prefix :: "pystr \<Rightarrow> pystr \<Rightarrow> pystr" where
  "remove_prefix summary_prefix raw_summary =
     (if py_startswith raw_summary summary_prefix
      then py_strip (drop (length summary_prefix) raw_summary)
      else raw_summary)"

text \<open>
  The fallback of the quality gate (lines 205 to 234): the inner \<open>try\<close> catches every
  exception of the second pass, and the summary so far stands.
\<close>

definition quality_gate ::
  "tokenizer_h \<Rightarrow> model_h \<Rightarrow> world \<Rightarrow> input_encoding \<Rightarrow> int \<Rightarrow> pystr \<Rightarrow> pystr \<times> world" where
  "quality_gate tok mdl w input max_length raw_summary =
     (let word_count = length (py_split raw_summary)
      in if word_count < 3
         then
           (case generate_decode tok mdl w input (fallback_params max_length) of
              (Inl fallback_error, w1) \<Rightarrow> (raw_summary, w1)
            | (Inr fallback_summary, w1) \<Rightarrow>
                (let fallback_word_count = length (py_split fallback_summary)
                 in if fallback_word_count > word_count
                    then (fallback_summary, w1)
                    else (raw_summary, w1)))
         else (raw_summary, w))"

text \<open>
  The body of the outer \<open>try\<close> of \<open>generate_summary\<close>. Calling a tokenizer that is
  still \<open>None\<close> raises \<open>TypeError\<close> there, and \<open>generate\<close> on a model that is
  still \<open>None\<close> raises \<open>AttributeError\<close>.
\<close>

definition summary_body ::
  "processor \<Rightarrow> world \<Rightarrow> pystr \<Rightarrow> pystr \<Rightarrow> int \<Rightarrow> int \<Rightarrow> pystr result \<times> world" where
  "summary_body self w summary_prefix input_text max_length min_length =
     (case tokenizer self of
        None \<Rightarrow> (Inl (TypeError ([0x27] @ asc ''NoneType'' @ [0x27] @ asc '' object is not callable'')), w)
      | Some tok \<Rightarrow>
          (case encode tok input_text 512 (device self) of
             Inl error \<Rightarrow> (Inl error, w)
           | Inr input \<Rightarrow>
               (case model self of
                  None \<Rightarrow>
                    (Inl (AttributeError
                       ([0x27] @ asc ''NoneType'' @ [0x27] @ asc '' object has no attribute ''
                        @ [0x27] @ asc ''generate'' @ [0x27])), w)
                | Some mdl \<Rightarrow>
                    (case generate_decode tok mdl w input
                            (generation_params max_length min_length) of
                       (Inl error, w1) \<Rightarrow> (Inl error, w1)
                     | (Inr raw_summary, w1) \<Rightarrow>
                         (case quality_gate tok mdl w1 input max_length
                                 (remove_prefix summary_prefix raw_summary) of
                            (summary, w2) \<Rightarrow> (Inr summary, w2))))))"

definition summary_failed :: pystr where
  "summary_failed = [0x6458, 0x8981, 0x751F, 0x6210, 0x5931, 0x8D25, 0x3A, 0x20]"

definition generate_summary ::
  "hub \<Rightarrow> processor \<Rightarrow> world \<Rightarrow> pystr \<Rightarrow> int \<Rightarrow> int \<Rightarrow> pystr
   \<Rightarrow> pystr result \<times> processor \<times> world" where
  "generate_summary hb self w text max_length min_length language =
     (case load_model hb self w of
        (Some error, self1, w1) \<Rightarrow> (Inl error, self1, w1)
      | (None, self1, w1) \<Rightarrow>
          (let summary_prefix = language_prefix language;
               input_text = summary_prefix @ text
           in case summary_body self1 w1 summary_prefix input_text max_length min_length of
                (Inl error, w2) \<Rightarrow>
                  (Inl (RuntimeError (summary_failed @ str_of error)), self1, w2)
              | (Inr summary, w2) \<Rightarrow> (Inr summary, self1, w2)))"

text \<open>
  The keyword arguments that \<open>process_file\<close> passes on to \<open>generate_summary\<close>; one
  that is absent takes the default of the signature.
\<close>

record summary_kwargs =
  kw_max_length :: "int option"
  kw_min_length :: "int option"

definition file_failed :: pystr where
  "file_failed = [0x6587, 0x4EF6, 0x5904, 0x7406, 0x5931, 0x8D25, 0x3A, 0x20]"

definition process_file ::
  "platform \<Rightarrow> hub \<Rightarrow> processor \<Rightarrow> world \<Rightarrow> pystr \<Rightarrow> pystr \<Rightarrow> summary_kwargs
   \<Rightarrow> pystr result \<times> processor \<times> world" where
  "process_file pf hb self w file_path language kw =
     (case read_file pf (files w) file_path of
        Inl error \<Rightarrow> (Inl (RuntimeError (file_failed @ str_of error)), self, w)
      | Inr file_content \<Rightarrow>
          (case generate_summary hb self w file_content
                  (case kw_max_length kw of None \<Rightarrow> 30 | Some n \<Rightarrow> n)
                  (case kw_min_length kw of None \<Rightarrow> 10 | Some n \<Rightarrow> n)
                  language of
             (Inl error, self1, w1) \<Rightarrow>
               (Inl (RuntimeError (file_failed @ str_of error)), self1, w1)
           | (Inr raw_summary, self1, w1) \<Rightarrow> (Inr (clean_filename raw_summary), self1, w1)))"

section \<open>The batch thread (\<open>FileProcessingThread.run\<close>)\<close>

definition already_exists :: "pystr \<Rightarrow> pystr" where
  "already_exists name = [0x6587, 0x4EF6, 0x20] @ name @ [0x20, 0x5DF2, 0x5B58, 0x5728]"

text \<open>
  One round of the loop: a new \<open>TextProcessor\<close>, \<open>process_file\<close> with the defaults,
  and the renaming of the file. The outcome is what the round reports: the new name, or
  the exception its handler caught. The target of the renaming does not exist when
  \<open>os.rename\<close> is reached, and the renaming moves the node.
\<close>

definition run_file :: "platform \<Rightarrow> hub \<Rightarrow> world \<Rightarrow> pystr \<Rightarrow> pystr result \<times> world" where
  "run_file pf hb w file_path =
     (let processor = TextProcessor_init
      in case process_file pf hb processor w file_path (asc ''en'')
                \<lparr>kw_max_length = None, kw_min_length = None\<rparr> of
           (Inl e, processor1, w1) \<Rightarrow> (Inl e, w1)
         | (Inr new_name, processor1, w1) \<Rightarrow>
             (let file_ext = path_suffix_lower pf file_path;
                  new_name_with_ext = new_name @ file_ext;
                  file_dir = path_dirname pf file_path;
                  new_file_path = path_join pf file_dir new_name_with_ext
              in if os_path_exists (files w1) new_file_path
                 then (Inl (FileExistsError (already_exists new_name_with_ext)), w1)
                 else (Inr new_name_with_ext,
                       w1\<lparr>files := (files w1)(file_path := None,
                                                new_file_path := files w1 file_path)\<rparr>)))"

text \<open>
  The loop over the paths, with the outcomes collected and the successes counted.
\<close>

fun run_loop ::
  "platform \<Rightarrow> hub \<Rightarrow> pystr list \<Rightarrow> world \<Rightarrow> nat \<Rightarrow> pystr result list \<times> nat \<times> world" where
  "run_loop pf hb [] w success_count = ([], success_count, w)"
| "run_loop pf hb (file_path # rest) w success_count =
     (case run_file pf hb w file_path of
        (Inl e, w1) \<Rightarrow>
          (case run_loop pf hb rest w1 success_count of
             (outcomes, n, w2) \<Rightarrow> (Inl e # outcomes, n, w2))
      | (Inr name, w1) \<Rightarrow>
          (case run_loop pf hb rest w1 (success_count + 1) of
             (outcomes, n, w2) \<Rightarrow> (Inr name # outcomes, n, w2)))"

definition run :: "platform \<Rightarrow> hub \<Rightarrow> pystr list \<Rightarrow> world \<Rightarrow> pystr result list \<times> nat \<times> world" where
  "run pf hb file_paths w = run_loop pf hb file_paths w 0"

section \<open>A concrete platform and a concrete model\<close>

text \<open>
  Closed instances of what the program takes from outside, for evaluating it on concrete
  inputs. The path functions are the POSIX ones on simple paths. The GBK decoder is a
  fragment of the codec: ASCII, and the two-byte code \<open>D6 D0\<close> of \<open>U+4E2D\<close>; it
  rejects every other byte above \<open>7F\<close>. The UTF-16 decoder reads little-endian code
  units of the basic plane behind an optional byte order mark \<open>FF FE\<close>.
\<close>

fun gbk_fragment :: "nat list \<Rightarrow> pystr option" where
  "gbk_fragment [] = Some []"
| "gbk_fragment [b] = (if b < 0x80 then Some [b] else None)"
| "gbk_fragment (b # c # bs) =
     (if b < 0x80 then map_option ((#) b) (gbk_fragment (c # bs))
      else if b = 0xD6 \<and> c = 0xD0 then map_option ((#) 0x4E2D) (gbk_fragment bs)
      else None)"

fun utf16le_units :: "nat list \<Rightarrow> pystr option" where
  "utf16le_units [] = Some []"
| "utf16le_units [b] = None"
| "utf16le_units (lo # hi # bs) =
     (if 0xD8 \<le> hi \<and> hi \<le> 0xDF then None
      else map_option ((#) (lo + 256 * hi)) (utf16le_units bs))"

definition utf16_basic :: "nat list \<Rightarrow> pystr option" where
  "utf16_basic bs = (if take 2 bs = [0xFF, 0xFE] then utf16le_units (drop 2 bs) else utf16le_units bs)"

definition ascii_lower :: "pystr \<Rightarrow> pystr" where
  "ascii_lower s = map (\<lambda>c. if 65 \<le> c \<and> c \<le> 90 then c + 32 else c) s"

definition posix_name :: "pystr \<Rightarrow> pystr" where
  "posix_name p = rev (takeWhile (\<lambda>c. c \<noteq> 0x2F) (rev p))"

definition posix_suffix :: "pystr \<Rightarrow> pystr" where
  "posix_suffix p =
     (let name = posix_name p;
          ext = rev (takeWhile (\<lambda>c. c \<noteq> 0x2E) (rev name))
      in if 0x2E \<in> set name \<and> ext \<noteq> [] \<and> length ext + 1 < length name
         then 0x2E # ext else [])"

definition posix_dirname :: "pystr \<Rightarrow> pystr" where
  "posix_dirname p =
     (let head = rev (dropWhile (\<lambda>c. c \<noteq> 0x2F) (rev p))
      in if head \<noteq> [] \<and> \<not> list_all (\<lambda>c. c = 0x2F) head
         then rev (dropWhile (\<lambda>c. c = 0x2F) (rev head)) else head)"

definition posix_join :: "pystr \<Rightarrow> pystr \<Rightarrow> pystr" where
  "posix_join a b =
     (if take 1 b = [0x2F] then b
      else if a = [] \<or> last a = 0x2F then a @ b
      else a @ [0x2F] @ b)"

definition demo_platform :: platform where
  "demo_platform =
     \<lparr>gbk_decode = (\<lambda>bs. gbk_fragment (map unat bs)),
      utf16_decode = (\<lambda>bs. utf16_basic (map unat bs)),
      utf16_decode_replace =
        (\<lambda>bs. case utf16_basic (map unat bs) of Some t \<Rightarrow> t | None \<Rightarrow> [0xFFFD]),
      docx_paragraphs = (\<lambda>bs. Inl (OtherException (asc ''Package not found''))),
      ole_streams = (\<lambda>bs. Inl (OtherException (asc ''not an OLE2 structured storage file''))),
      path_suffix_lower = (\<lambda>p. ascii_lower (posix_suffix p)),
      path_dirname = posix_dirname,
      path_join = posix_join\<rparr>"

text \<open>
  A tokenizer whose tokens are the characters, and a model that shows the two failure
  modes the program defends against: with beam search it collapses to one word, and with
  one beam it echoes the start of its input, up to \<open>max_length\<close> tokens.
\<close>

definition char_tokenizer :: tokenizer_h where
  "char_tokenizer =
     \<lparr>encode = (\<lambda>text max_length dev.
         Inr \<lparr>input_ids = take max_length text,
              attention_mask = replicate (min max_length (length text)) 1\<rparr>),
      decode_ids = (\<lambda>ids. Inr ids)\<rparr>"

definition echo_model :: model_h where
  "echo_model =
     \<lparr>generate = (\<lambda>n input params.
         if map_of params ''num_beams'' = Some (PyInt 1)
         then (case map_of params ''max_length'' of
                 Some (PyInt k) \<Rightarrow> Inr [take (nat k) (input_ids input)]
               | _ \<Rightarrow> Inr [input_ids input])
         else Inr [asc ''Report''])\<rparr>"

definition demo_hub :: hub where
  "demo_hub =
     \<lparr>tokenizer_from_pretrained = (\<lambda>n. Inr char_tokenizer),
      model_from_pretrained = (\<lambda>n. Inr echo_model),
      cuda_is_available = False,
      model_to = (\<lambda>n dev. None)\<rparr>"

definition empty_world :: world where
  "empty_world = \<lparr>files = Map.empty, tokenizer_loads = 0, weight_loads = 0, generate_calls = []\<rparr>"

definition loaded_processor :: processor where
  "loaded_processor =
     \<lparr>model = Some echo_model, tokenizer = Some char_tokenizer, device = Some (asc ''cpu'')\<rparr>"

definition no_kwargs :: summary_kwargs where
  "no_kwargs = \<lparr>kw_max_length = None, kw_min_length = None\<rparr>"

definition once_loaded_world :: world where
  "once_loaded_world = empty_world\<lparr>tokenizer_loads := 1, weight_loads := 1\<rparr>"

definition two_files_world :: world where
  "two_files_world =
     empty_world\<lparr>files :=
       [asc ''/d/a.txt'' \<mapsto> File (map of_nat (asc ''hello world again'')),
        asc ''/d/b.txt'' \<mapsto> File (map of_nat (asc ''another short text''))]\<rparr>"

definition pdf_world :: world where
  "pdf_world = empty_world\<lparr>files := [asc ''/d/notes.pdf'' \<mapsto> File [0x25, 0x50, 0x44, 0x46]]\<rparr>"

section \<open>Properties of the sanitiser\<close>


lemma py_rstrip_take: "py_rstrip s = take (length s - length (takeWhile py_isspace (rev s))) s"
proof -
  have "dropWhile py_isspace (rev s) = drop (length (takeWhile py_isspace (rev s))) (rev s)"
    by (simp add: dropWhile_eq_drop)
  then show ?thesis
    by (simp add: py_rstrip_def rev_drop)
qed

lemma set_rstrip: "set (py_rstrip s) \<subseteq> set s"
  by (auto simp: py_rstrip_def dest: set_dropWhileD)

lemma set_lstrip: "set (py_lstrip s) \<subseteq> set s"
  by (auto simp: py_lstrip_def dest: set_dropWhileD)

lemma set_strip: "set (py_strip s) \<subseteq> set s"
  using set_rstrip set_lstrip unfolding py_strip_def by blast

lemma length_rstrip: "length (py_rstrip s) \<le> length s"
  by (simp add: py_rstrip_take)

lemma py_rstrip_last: "py_rstrip s \<noteq> [] \<Longrightarrow> \<not> py_isspace (last (py_rstrip s))"
proof -
  assume ne: "py_rstrip s \<noteq> []"
  then have "dropWhile py_isspace (rev s) \<noteq> []" by (simp add: py_rstrip_def)
  then have "\<not> py_isspace (hd (dropWhile py_isspace (rev s)))" by (rule hd_dropWhile)
  with ne show ?thesis by (simp add: py_rstrip_def last_rev)
qed

lemma py_lstrip_hd: "py_lstrip s \<noteq> [] \<Longrightarrow> \<not> py_isspace (hd (py_lstrip s))"
  unfolding py_lstrip_def by (rule hd_dropWhile)

lemma py_rstrip_hd: "py_rstrip s \<noteq> [] \<Longrightarrow> hd (py_rstrip s) = hd s"
  by (cases s) (auto simp: py_rstrip_take hd_take)

lemma py_strip_hd: "py_strip s \<noteq> [] \<Longrightarrow> \<not> py_isspace (hd (py_strip s))"
proof -
  assume ne: "py_strip s \<noteq> []"
  then have "py_lstrip s \<noteq> []" by (auto simp: py_strip_def py_rstrip_def)
  with ne show ?thesis using py_rstrip_hd [of "py_lstrip s"] py_lstrip_hd [of s] by (simp add: py_strip_def)
qed

lemma py_strip_last: "py_strip s \<noteq> [] \<Longrightarrow> \<not> py_isspace (last (py_strip s))"
  unfolding py_strip_def by (rule py_rstrip_last)

lemma set_sub_spaces: "set (sub_spaces s) \<subseteq> {c \<in> set s. \<not> consecutive_spaces_pattern c} \<union> {0x20}"
proof (induction s rule: sub_spaces.induct)
  case 1
  show ?case by simp
next
  case (2 c cs)
  show ?case
  proof (cases "consecutive_spaces_pattern c")
    case True
    with 2 have "set (sub_spaces (dropWhile consecutive_spaces_pattern cs))
        \<subseteq> {c \<in> set (dropWhile consecutive_spaces_pattern cs). \<not> consecutive_spaces_pattern c} \<union> {0x20}"
      by simp
    also have "\<dots> \<subseteq> {c \<in> set cs. \<not> consecutive_spaces_pattern c} \<union> {0x20}"
      by (auto dest: set_dropWhileD)
    finally show ?thesis using True by auto
  next
    case False
    with 2 show ?thesis by auto
  qed
qed

lemma space_not_special: "\<not> special_chars_pattern 0x20"
  by (simp add: special_chars_pattern_def FILENAME_SPECIAL_CHARS_def)

lemma set_sub_special: "set (sub_special s) = {c \<in> set s. \<not> special_chars_pattern c}"
  by (auto simp: sub_special_def)

lemma no_special_sub_spaces:
  assumes "\<forall>c \<in> set s. \<not> special_chars_pattern c"
  shows "\<forall>c \<in> set (sub_spaces s). \<not> special_chars_pattern c"
  using set_sub_spaces [of s] assms space_not_special by auto

lemma clean_filename_set:
  "set (clean_filename t) \<subseteq> set (py_strip (sub_spaces (sub_special (sub_markup t))))"
  using set_rstrip [of "take MAX_FILENAME_LENGTH (py_strip (sub_spaces (sub_special (sub_markup t))))"]
  by (auto simp: clean_filename_def Let_def dest: in_set_takeD)

lemma clean_filename_subset:
  "set (clean_filename t) \<subseteq> set (sub_spaces (sub_special (sub_markup t)))"
  using clean_filename_set set_strip by blast

lemma clean_filename_no_special: "c \<in> set (clean_filename t) \<Longrightarrow> \<not> special_chars_pattern c"
  using clean_filename_subset [of t] no_special_sub_spaces [of "sub_special (sub_markup t)"]
  by (auto simp: set_sub_special)

lemma clean_filename_length: "length (clean_filename t) \<le> MAX_FILENAME_LENGTH"
proof -
  have "length (py_rstrip (take MAX_FILENAME_LENGTH s)) \<le> MAX_FILENAME_LENGTH" for s
    using length_rstrip [of "take MAX_FILENAME_LENGTH s"] by simp
  then show ?thesis by (simp add: clean_filename_def Let_def)
qed

lemma hd_take_nonempty: "take n s \<noteq> [] \<Longrightarrow> hd (take n s) = hd s"
  by (cases s; cases n) auto

lemma clean_filename_hd:
  assumes "clean_filename t \<noteq> []"
  shows "\<not> py_isspace (hd (clean_filename t))"
proof -
  let ?t = "py_strip (sub_spaces (sub_special (sub_markup t)))"
  show ?thesis
  proof (cases "length ?t > MAX_FILENAME_LENGTH")
    case True
    then have eq: "clean_filename t = py_rstrip (take MAX_FILENAME_LENGTH ?t)"
      by (simp add: clean_filename_def Let_def)
    have "py_rstrip [] = []" by (simp add: py_rstrip_def)
    with eq assms have ne: "take MAX_FILENAME_LENGTH ?t \<noteq> []" by metis
    from True have "?t \<noteq> []" by auto
    then have "\<not> py_isspace (hd ?t)" by (rule py_strip_hd)
    moreover have "hd (clean_filename t) = hd (take MAX_FILENAME_LENGTH ?t)"
      using eq assms py_rstrip_hd [of "take MAX_FILENAME_LENGTH ?t"] by simp
    moreover have "hd (take MAX_FILENAME_LENGTH ?t) = hd ?t"
      using ne by (rule hd_take_nonempty)
    ultimately show ?thesis by simp
  next
    case False
    then have "clean_filename t = ?t" by (simp add: clean_filename_def Let_def)
    with assms show ?thesis using py_strip_hd [of "sub_spaces (sub_special (sub_markup t))"] by simp
  qed
qed

lemma clean_filename_last:
  assumes "clean_filename t \<noteq> []"
  shows "\<not> py_isspace (last (clean_filename t))"
proof -
  let ?t = "py_strip (sub_spaces (sub_special (sub_markup t)))"
  show ?thesis
  proof (cases "length ?t > MAX_FILENAME_LENGTH")
    case True
    then have eq: "clean_filename t = py_rstrip (take MAX_FILENAME_LENGTH ?t)"
      by (simp add: clean_filename_def Let_def)
    with assms show ?thesis using py_rstrip_last [of "take MAX_FILENAME_LENGTH ?t"] by simp
  next
    case False
    then have "clean_filename t = ?t" by (simp add: clean_filename_def Let_def)
    with assms show ?thesis using py_strip_last [of "sub_spaces (sub_special (sub_markup t))"] by simp
  qed
qed


lemma normalised_tl: "normalised (c # cs) \<Longrightarrow> normalised cs"
  by (cases cs) (auto split: if_splits)

lemma normalised_Cons_plain:
  "\<not> consecutive_spaces_pattern c \<Longrightarrow> normalised (c # cs) = normalised cs"
  by (cases cs) auto

lemma normalised_drop: "normalised s \<Longrightarrow> normalised (drop n s)"
proof (induction n arbitrary: s)
  case 0
  then show ?case by simp
next
  case (Suc n)
  then show ?case by (cases s) (auto dest: normalised_tl)
qed

lemma normalised_take: "normalised s \<Longrightarrow> normalised (take n s)"
proof (induction s arbitrary: n rule: normalised.induct)
  case 1
  then show ?case by simp
next
  case (2 c)
  then show ?case by (cases n) auto
next
  case (3 c d cs)
  show ?case
  proof (cases n)
    case 0
    then show ?thesis by simp
  next
    case (Suc m)
    note n = this
    show ?thesis
    proof (cases m)
      case 0
      with n 3 show ?thesis by (auto split: if_splits)
    next
      case (Suc k)
      from 3 have "normalised (take m (d # cs))" by simp
      with n Suc 3 show ?thesis by (auto split: if_splits)
    qed
  qed
qed

lemma normalised_lstrip: "normalised s \<Longrightarrow> normalised (py_lstrip s)"
  by (simp add: py_lstrip_def dropWhile_eq_drop normalised_drop)

lemma normalised_rstrip: "normalised s \<Longrightarrow> normalised (py_rstrip s)"
  by (simp add: py_rstrip_take normalised_take)

lemma normalised_strip: "normalised s \<Longrightarrow> normalised (py_strip s)"
  by (simp add: py_strip_def normalised_lstrip normalised_rstrip)

lemma normalised_sub_spaces: "normalised (sub_spaces s)"
proof (induction s rule: sub_spaces.induct)
  case 1
  show ?case by simp
next
  case (2 c cs)
  show ?case
  proof (cases "consecutive_spaces_pattern c")
    case True
    let ?r = "dropWhile consecutive_spaces_pattern cs"
    from 2 True have ih: "normalised (sub_spaces ?r)" by simp
    from True have eq: "sub_spaces (c # cs) = 0x20 # sub_spaces ?r" by simp
    have sp: "consecutive_spaces_pattern 0x20"
      by (simp add: consecutive_spaces_pattern_def py_isspace_def)
    show ?thesis
    proof (cases ?r)
      case Nil
      with eq have "sub_spaces (c # cs) = [0x20]" by simp
      then show ?thesis by simp
    next
      case (Cons d ds)
      then have nd: "\<not> consecutive_spaces_pattern d"
        using hd_dropWhile [of consecutive_spaces_pattern cs] by auto
      with Cons have r: "sub_spaces ?r = d # sub_spaces ds" by simp
      from ih have "normalised (0x20 # d # sub_spaces ds)"
        unfolding r using nd sp by simp
      then show ?thesis by (simp only: eq r)
    qed
  next
    case False
    with 2 show ?thesis by (simp add: normalised_Cons_plain)
  qed
qed

lemma sub_spaces_normalised: "normalised s \<Longrightarrow> sub_spaces s = s"
proof (induction s rule: normalised.induct)
  case 1
  show ?case by simp
next
  case (2 c)
  then show ?case by (auto split: if_splits)
next
  case (3 c d cs)
  then show ?case by (auto split: if_splits)
qed

lemma py_lstrip_id: "s = [] \<or> \<not> py_isspace (hd s) \<Longrightarrow> py_lstrip s = s"
  by (cases s) (auto simp: py_lstrip_def)

lemma py_rstrip_id: "s = [] \<or> \<not> py_isspace (last s) \<Longrightarrow> py_rstrip s = s"
proof (cases "s = []")
  case True
  then show ?thesis by (simp add: py_rstrip_def)
next
  case False
  assume "s = [] \<or> \<not> py_isspace (last s)"
  with False have "\<not> py_isspace (hd (rev s))" by (simp add: hd_rev)
  with False have "dropWhile py_isspace (rev s) = rev s" by (cases "rev s") auto
  then show ?thesis by (simp add: py_rstrip_def)
qed

lemma py_strip_id:
  "s = [] \<or> \<not> py_isspace (hd s) \<Longrightarrow> s = [] \<or> \<not> py_isspace (last s) \<Longrightarrow> py_strip s = s"
  by (simp add: py_strip_def py_lstrip_id py_rstrip_id)

lemma sub_markup_id: "0x3C \<notin> set s \<Longrightarrow> sub_markup s = s"
  by (induction s) auto

lemma sub_special_id: "\<forall>c \<in> set s. \<not> special_chars_pattern c \<Longrightarrow> sub_special s = s"
  by (simp add: sub_special_def)

lemma lt_special: "special_chars_pattern 0x3C"
  by (simp add: special_chars_pattern_def FILENAME_SPECIAL_CHARS_def)

lemma normalised_clean_filename: "normalised (clean_filename t)"
  by (simp add: clean_filename_def Let_def normalised_strip normalised_sub_spaces
      normalised_rstrip normalised_take)


lemma ends_with_space_last: "s \<noteq> [] \<Longrightarrow> ends_with_space s = py_isspace (last s)"
  by (cases s rule: rev_cases) (auto simp: ends_with_space_def starts_with_space_def)

text \<open>
  Claim C6. For every input string, the output of \<open>clean_filename\<close> contains no
  character of the forbidden set, is at most 200 characters long, and neither starts nor
  ends with a whitespace character. The function is total: it is defined by terminating
  recursions that return a string for every string.
\<close>

theorem clean_filename_safe:
  "set (clean_filename t) \<inter> set FILENAME_SPECIAL_CHARS = {}
   \<and> length (clean_filename t) \<le> 200
   \<and> \<not> starts_with_space (clean_filename t)
   \<and> \<not> ends_with_space (clean_filename t)"
proof -
  let ?y = "clean_filename t"
  have a: "set ?y \<inter> set FILENAME_SPECIAL_CHARS = {}"
    using clean_filename_no_special [of _ t] by (auto simp: special_chars_pattern_def)
  have b: "length ?y \<le> 200"
    using clean_filename_length [of t] by (simp add: MAX_FILENAME_LENGTH_def)
  have c: "\<not> starts_with_space ?y"
    using clean_filename_hd [of t] by (cases ?y) (auto simp: starts_with_space_def)
  have d: "\<not> ends_with_space ?y"
  proof (cases "?y = []")
    case True
    then show ?thesis by (simp add: ends_with_space_def starts_with_space_def)
  next
    case False
    then show ?thesis
      using clean_filename_last [of t] by (simp add: ends_with_space_last)
  qed
  from a b c d show ?thesis by simp
qed

text \<open>
  Claim C8. \<open>clean_filename\<close> is idempotent: sanitising its own output returns that
  output unchanged.
\<close>

theorem clean_filename_idempotent:
  "clean_filename (clean_filename x) = clean_filename x"
proof -
  let ?y = "clean_filename x"
  have nospec: "\<forall>c \<in> set ?y. \<not> special_chars_pattern c"
    using clean_filename_no_special by blast
  then have "0x3C \<notin> set ?y" using lt_special by blast
  then have m: "sub_markup ?y = ?y" by (rule sub_markup_id)
  have sp: "sub_special ?y = ?y" using nospec by (rule sub_special_id)
  have ss: "sub_spaces ?y = ?y" using normalised_clean_filename by (rule sub_spaces_normalised)
  have st: "py_strip ?y = ?y"
    using clean_filename_hd [of x] clean_filename_last [of x] by (intro py_strip_id) auto
  have "\<not> length ?y > MAX_FILENAME_LENGTH" using clean_filename_length [of x] by simp
  then show ?thesis
    unfolding clean_filename_def [of ?y] by (simp add: m sp ss st Let_def)
qed

text \<open>
  Claim C9. The output of \<open>clean_filename\<close> never contains the hyphen, although the
  hyphen is not in the forbidden set: the collapsing step turns a hyphen, with the run of
  hyphens and whitespace that follows it, into one space, and so its output has no hyphen
  for any input.
\<close>

theorem clean_filename_no_hyphen:
  "0x2D \<notin> set (clean_filename t)
   \<and> 0x2D \<notin> set FILENAME_SPECIAL_CHARS
   \<and> 0x2D \<notin> set (sub_spaces s)
   \<and> sub_spaces (0x2D # s) = 0x20 # sub_spaces (dropWhile consecutive_spaces_pattern s)"
proof -
  have a: "0x2D \<notin> set (sub_spaces u)" for u
    using set_sub_spaces [of u] by (auto simp: consecutive_spaces_pattern_def)
  have b: "0x2D \<notin> set (clean_filename t)"
    using clean_filename_subset [of t] a [of "sub_special (sub_markup t)"] by blast
  have c: "0x2D \<notin> set FILENAME_SPECIAL_CHARS"
    by (simp add: FILENAME_SPECIAL_CHARS_def)
  have d: "sub_spaces (0x2D # s) = 0x20 # sub_spaces (dropWhile consecutive_spaces_pattern s)"
    by (simp add: consecutive_spaces_pattern_def)
  from a b c d show ?thesis by simp
qed

section \<open>Properties of the plain-text reader\<close>


lemma latin1_total: "decode pf Latin1 bs = Some (map unat bs)"
  by (simp add: latin1_decode_def)

lemma read_txt_loop_None:
  "read_txt_loop pf es bs = None \<longleftrightarrow> (\<forall>e \<in> set es. decode pf e bs = None)"
  by (induction es) (auto split: option.splits)

lemma read_txt_loop_first:
  assumes "decode pf e bs = Some c" and "\<forall>e' \<in> set es. decode pf e' bs = None"
  shows "read_txt_loop pf (es @ e # rest) bs = Some (e, universal_newlines c)"
  using assms by (induction es) auto

lemma read_txt_loop_encodings:
  "read_txt_loop pf encodings bs = read_txt_loop pf [UTF8, GBK, Latin1] bs"
  by (simp add: encodings_def latin1_decode_def split: option.splits)

lemma read_txt_loop_some:
  "\<exists>e c. read_txt_loop pf encodings bs = Some (e, c) \<and> e \<noteq> UTF16"
  by (simp add: encodings_def latin1_decode_def split: option.splits)

lemma read_txt_loop_utf16_irrelevant:
  "read_txt_loop (pf\<lparr>utf16_decode := d\<rparr>) encodings bs = read_txt_loop pf encodings bs"
  by (simp add: encodings_def latin1_decode_def split: option.splits)

text \<open>
  Claim C10. The branch of the plain-text reader that raises the decoding error is
  unreachable. latin-1, the third candidate, decodes every byte sequence; so the loop
  always returns with one of the first three candidates, every file that can be opened is
  read, no outcome of \<open>read_txt\<close> is the decoding error, and the UTF-16 decoder is never
  consulted: the outcome is the same whatever that decoder does.
\<close>

theorem read_txt_never_decode_failure:
  "decode pf Latin1 bs = Some (map unat bs)
   \<and> (\<exists>e c. read_txt_loop pf encodings bs = Some (e, c) \<and> e \<noteq> UTF16)
   \<and> (\<exists>c. read_txt pf (fsys(file_path \<mapsto> File bs)) file_path = Inr c)
   \<and> read_txt pf fsys file_path \<noteq> Inl (ValueError (cannot_decode @ file_path))
   \<and> read_txt (pf\<lparr>utf16_decode := d\<rparr>) fsys file_path = read_txt pf fsys file_path"
proof -
  have a: "decode pf Latin1 bs = Some (map unat bs)" by (rule latin1_total)
  have b: "\<exists>e c. read_txt_loop pf encodings bs = Some (e, c) \<and> e \<noteq> UTF16"
    by (rule read_txt_loop_some)
  have c: "\<exists>c. read_txt pf (fsys(file_path \<mapsto> File bs)) file_path = Inr c"
    using read_txt_loop_some [of pf bs] by (auto simp: read_txt_def open_read_def)
  have d: "read_txt pf fsys file_path \<noteq> Inl (ValueError (cannot_decode @ file_path))"
  proof (cases "open_read fsys file_path")
    case (Inl e)
    then have "e \<noteq> ValueError (cannot_decode @ file_path)"
      by (auto simp: open_read_def split: option.splits node.splits)
    with Inl show ?thesis by (simp add: read_txt_def)
  next
    case (Inr bs')
    obtain e c where "read_txt_loop pf encodings bs' = Some (e, c)"
      using read_txt_loop_some [of pf bs'] by blast
    with Inr show ?thesis by (simp add: read_txt_def)
  qed
  have e: "read_txt (pf\<lparr>utf16_decode := d\<rparr>) fsys file_path = read_txt pf fsys file_path"
    by (simp add: read_txt_def read_txt_loop_utf16_irrelevant split: sum.splits)
  from a b c d e show ?thesis by blast
qed

text \<open>
  Claim C4, as amended. The reader returns the decoding by the first candidate, in the
  order UTF-8, GBK, latin-1, that decodes the bytes, with line endings translated: a file
  whose bytes decode as UTF-8 is extracted to that text, one that is not UTF-8 and decodes
  as GBK to its GBK text, one that is neither to its latin-1 text, each up to the
  translation of \<open>\r\n\<close> and \<open>\r\<close> to \<open>\n\<close>. The decoding error is raised exactly when
  none of the four candidates decodes the bytes.
\<close>

theorem read_txt_first_candidate:
  assumes "fsys file_path = Some (File bs)"
  shows "(\<forall>c. decode pf UTF8 bs = Some c
            \<longrightarrow> read_txt pf fsys file_path = Inr (universal_newlines c))
       \<and> (\<forall>c. decode pf UTF8 bs = None \<and> decode pf GBK bs = Some c
            \<longrightarrow> read_txt pf fsys file_path = Inr (universal_newlines c))
       \<and> (\<forall>c. decode pf UTF8 bs = None \<and> decode pf GBK bs = None \<and> decode pf Latin1 bs = Some c
            \<longrightarrow> read_txt pf fsys file_path = Inr (universal_newlines c))
       \<and> (read_txt pf fsys file_path = Inl (ValueError (cannot_decode @ file_path))
            \<longleftrightarrow> (\<forall>e \<in> set encodings. decode pf e bs = None))"
proof -
  from assms have o: "open_read fsys file_path = Inr bs" by (simp add: open_read_def)
  have a: "\<forall>c. decode pf UTF8 bs = Some c
            \<longrightarrow> read_txt pf fsys file_path = Inr (universal_newlines c)"
    by (simp add: read_txt_def o encodings_def)
  have b: "\<forall>c. decode pf UTF8 bs = None \<and> decode pf GBK bs = Some c
            \<longrightarrow> read_txt pf fsys file_path = Inr (universal_newlines c)"
    by (simp add: read_txt_def o encodings_def)
  have c: "\<forall>c. decode pf UTF8 bs = None \<and> decode pf GBK bs = None \<and> decode pf Latin1 bs = Some c
            \<longrightarrow> read_txt pf fsys file_path = Inr (universal_newlines c)"
    by (simp add: read_txt_def o encodings_def)
  have d: "read_txt pf fsys file_path = Inl (ValueError (cannot_decode @ file_path))
            \<longleftrightarrow> (\<forall>e \<in> set encodings. decode pf e bs = None)"
    using read_txt_loop_None [of pf encodings bs]
    by (auto simp: read_txt_def o split: option.splits)
  from a b c d show ?thesis by blast
qed

text \<open>
  The theorem at a file that holds the two bytes \<open>D6 D0\<close>: not UTF-8, and GBK for
  \<open>U+4E2D\<close>.
\<close>

theorem read_txt_first_candidate_witness:
  "decode demo_platform UTF8 [0xD6, 0xD0] = None
   \<and> decode demo_platform GBK [0xD6, 0xD0] = Some [0x4E2D]
   \<and> read_txt demo_platform [asc ''a.txt'' \<mapsto> File [0xD6, 0xD0]] (asc ''a.txt'') = Inr [0x4E2D]"
proof -
  have f: "[asc ''a.txt'' \<mapsto> File [0xD6, 0xD0]] (asc ''a.txt'') = Some (File [0xD6, 0xD0])"
    by simp
  have u: "decode demo_platform UTF8 [0xD6, 0xD0] = None"
    by (simp add: utf8_decode_def utf8_cont_def)
  have g: "decode demo_platform GBK [0xD6, 0xD0] = Some [0x4E2D]"
    by (simp add: demo_platform_def)
  from read_txt_first_candidate
         [where fsys = "[asc ''a.txt'' \<mapsto> File [0xD6, 0xD0]]" and file_path = "asc ''a.txt''"
            and bs = "[0xD6, 0xD0]" and pf = demo_platform, OF f] u g
  have "read_txt demo_platform [asc ''a.txt'' \<mapsto> File [0xD6, 0xD0]] (asc ''a.txt'')
          = Inr (universal_newlines [0x4E2D])"
    by blast
  with u g show ?thesis by simp
qed

text \<open>
  Claim C4 as it is stated fails. The two bytes \<open>C3 A9\<close> written in latin-1 are the
  text \<open>U+00C3 U+00A9\<close>, and they are read back as \<open>U+00E9\<close>, since UTF-8 comes first
  and decodes them; and the UTF-8 file \<open>a\r\nb\<close> is read back as \<open>a\nb\<close>.
\<close>

theorem read_txt_roundtrip_counterexample:
  "decode demo_platform Latin1 [0xC3, 0xA9] = Some [0xC3, 0xA9]
   \<and> read_txt demo_platform [asc ''a.txt'' \<mapsto> File [0xC3, 0xA9]] (asc ''a.txt'') = Inr [0xE9]
   \<and> decode demo_platform UTF8 [0x61, 0x0D, 0x0A, 0x62] = Some [0x61, 0x0D, 0x0A, 0x62]
   \<and> read_txt demo_platform [asc ''a.txt'' \<mapsto> File [0x61, 0x0D, 0x0A, 0x62]] (asc ''a.txt'')
       = Inr [0x61, 0x0A, 0x62]"
  by (simp add: read_txt_def open_read_def encodings_def utf8_decode_def utf8_cont_def
      latin1_decode_def)

section \<open>Properties of summarisation\<close>

lemma generate_decode_world:
  "snd (generate_decode tok mdl w input params) = w\<lparr>generate_calls := generate_calls w @ [params]\<rparr>"
  by (simp add: generate_decode_def Let_def split: sum.splits)

lemma quality_gate_short:
  assumes "length (py_split primary) < 3"
  shows "quality_gate tok mdl w input a primary =
           ((case fst (generate_decode tok mdl w input (fallback_params a)) of
               Inl e \<Rightarrow> primary
             | Inr fb \<Rightarrow> if length (py_split fb) > length (py_split primary) then fb else primary),
            w\<lparr>generate_calls := generate_calls w @ [fallback_params a]\<rparr>)"
proof (cases "generate_decode tok mdl w input (fallback_params a)")
  case (Pair r w1)
  then have w1: "w1 = w\<lparr>generate_calls := generate_calls w @ [fallback_params a]\<rparr>"
    using generate_decode_world [of tok mdl w input "fallback_params a"] by simp
  show ?thesis
  proof (cases r)
    case (Inl e)
    with Pair w1 assms show ?thesis by (simp add: quality_gate_def Let_def)
  next
    case (Inr fb)
    with Pair w1 assms show ?thesis by (simp add: quality_gate_def Let_def)
  qed
qed

lemma summary_with_fallback:
  assumes "load_model hb self w = (None, self1, w0)"
    and "tokenizer self1 = Some tok" and "model self1 = Some mdl"
    and "encode tok (language_prefix l @ t) 512 (device self1) = Inr input"
    and "generate_decode tok mdl w0 input (generation_params a b) = (Inr raw, w1)"
    and "length (py_split (remove_prefix (language_prefix l) raw)) < 3"
  shows "generate_summary hb self w t a b l =
           (Inr (case fst (generate_decode tok mdl w1 input (fallback_params a)) of
                   Inl e \<Rightarrow> remove_prefix (language_prefix l) raw
                 | Inr fb \<Rightarrow>
                     if length (py_split fb) > length (py_split (remove_prefix (language_prefix l) raw))
                     then fb else remove_prefix (language_prefix l) raw),
            self1, w1\<lparr>generate_calls := generate_calls w1 @ [fallback_params a]\<rparr>)"
proof -
  have qg: "quality_gate tok mdl w1 input a (remove_prefix (language_prefix l) raw) =
           ((case fst (generate_decode tok mdl w1 input (fallback_params a)) of
               Inl e \<Rightarrow> remove_prefix (language_prefix l) raw
             | Inr fb \<Rightarrow>
                 if length (py_split fb) > length (py_split (remove_prefix (language_prefix l) raw))
                 then fb else remove_prefix (language_prefix l) raw),
            w1\<lparr>generate_calls := generate_calls w1 @ [fallback_params a]\<rparr>)"
    using assms(6) by (rule quality_gate_short)
  have "summary_body self1 w0 (language_prefix l) (language_prefix l @ t) a b =
          (Inr (fst (quality_gate tok mdl w1 input a (remove_prefix (language_prefix l) raw))),
           snd (quality_gate tok mdl w1 input a (remove_prefix (language_prefix l) raw)))"
    using assms(2-5) by (simp add: summary_body_def split: prod.splits)
  then show ?thesis
    using assms(1) by (simp add: generate_summary_def Let_def qg)
qed

text \<open>
  Claim C7. When the primary summary, after the removal of an echoed prefix, has fewer
  than 3 words, the text returned is the fallback decode exactly when the fallback pass
  succeeds and its decode has more words than the primary summary; otherwise it is the
  primary summary, also when that is still short. An exception of the fallback pass does
  not leave \<open>generate_summary\<close>: the call returns the primary summary.
\<close>

theorem fallback_acceptance:
  assumes "load_model hb self w = (None, self1, w0)"
    and "tokenizer self1 = Some tok" and "model self1 = Some mdl"
    and "encode tok (language_prefix l @ t) 512 (device self1) = Inr input"
    and "generate_decode tok mdl w0 input (generation_params a b) = (Inr raw, w1)"
    and "primary = remove_prefix (language_prefix l) raw"
    and "length (py_split primary) < 3"
    and "fallback = fst (generate_decode tok mdl w1 input (fallback_params a))"
  shows "fst (generate_summary hb self w t a b l) =
           Inr (case fallback of
                  Inl fallback_error \<Rightarrow> primary
                | Inr fallback_summary \<Rightarrow>
                    if length (py_split fallback_summary) > length (py_split primary)
                    then fallback_summary else primary)"
proof -
  from assms(6,7) have short: "length (py_split (remove_prefix (language_prefix l) raw)) < 3"
    by simp
  show ?thesis
    unfolding assms(6) assms(8)
    using summary_with_fallback [OF assms(1-5) short] by simp
qed

text \<open>
  Claim C2, as amended. When the primary summary has fewer than 3 words, a second call of
  \<open>model.generate\<close> follows the primary one, with one beam, early stopping and the
  \<open>max_length\<close> of the request. It passes no \<open>do_sample\<close>, so it does not ask for
  sampling, and no \<open>min_length\<close>: of the two length bounds of the request, which the
  primary call both carries, the fallback call carries the upper one only.
\<close>

theorem fallback_call_parameters:
  assumes "load_model hb self w = (None, self1, w0)"
    and "tokenizer self1 = Some tok" and "model self1 = Some mdl"
    and "encode tok (language_prefix l @ t) 512 (device self1) = Inr input"
    and "generate_decode tok mdl w0 input (generation_params a b) = (Inr raw, w1)"
    and "length (py_split (remove_prefix (language_prefix l) raw)) < 3"
  shows "generate_calls (snd (snd (generate_summary hb self w t a b l)))
           = generate_calls w0 @ [generation_params a b, fallback_params a]
       \<and> map_of (fallback_params a) ''num_beams'' = Some (PyInt 1)
       \<and> map_of (fallback_params a) ''early_stopping'' = Some (PyBool True)
       \<and> map_of (fallback_params a) ''max_length'' = Some (PyInt a)
       \<and> map_of (fallback_params a) ''do_sample'' = None
       \<and> map_of (fallback_params a) ''min_length'' = None
       \<and> map_of (generation_params a b) ''max_length'' = Some (PyInt a)
       \<and> map_of (generation_params a b) ''min_length'' = Some (PyInt b)"
proof -
  have "w1 = w0\<lparr>generate_calls := generate_calls w0 @ [generation_params a b]\<rparr>"
    using generate_decode_world [of tok mdl w0 input "generation_params a b"] assms(5) by simp
  then have "generate_calls (snd (snd (generate_summary hb self w t a b l)))
           = generate_calls w0 @ [generation_params a b, fallback_params a]"
    using summary_with_fallback [OF assms] by simp
  then show ?thesis
    by (simp add: fallback_params_def generation_params_def)
qed

lemma prefix_en: "language_prefix (asc ''en'') = asc ''summarize English: ''"
  by (simp add: language_prefix_def LANGUAGE_PREFIXES_def)

lemma load_demo:
  "load_model demo_hub TextProcessor_init empty_world = (None, loaded_processor, once_loaded_world)"
  by (simp add: load_model_def demo_hub_def TextProcessor_init_def empty_world_def
      loaded_processor_def once_loaded_world_def Let_def)

lemma loaded_fields:
  "tokenizer loaded_processor = Some char_tokenizer"
  "model loaded_processor = Some echo_model"
  "device loaded_processor = Some (asc ''cpu'')"
  by (simp_all add: loaded_processor_def)

lemma encode_demo:
  "encode char_tokenizer t 512 d
     = Inr \<lparr>input_ids = take 512 t, attention_mask = replicate (min 512 (length t)) 1\<rparr>"
  by (simp add: char_tokenizer_def)

lemma primary_demo:
  "generate_decode char_tokenizer echo_model w input (generation_params a b)
     = (Inr (asc ''Report''), w\<lparr>generate_calls := generate_calls w @ [generation_params a b]\<rparr>)"
  by (simp add: generate_decode_def echo_model_def char_tokenizer_def generation_params_def
      first_sequence_def Let_def)

lemma fallback_demo:
  "generate_decode char_tokenizer echo_model w input (fallback_params 30)
     = (Inr (take 30 (input_ids input)),
        w\<lparr>generate_calls := generate_calls w @ [fallback_params 30]\<rparr>)"
  by (simp add: generate_decode_def echo_model_def char_tokenizer_def fallback_params_def
      first_sequence_def Let_def)

lemma report_kept: "remove_prefix (asc ''summarize English: '') (asc ''Report'') = asc ''Report''"
  by (simp add: remove_prefix_def py_startswith_def asc_def)

lemma wc_report: "length (py_split (asc ''Report'')) = 1"
  by (simp add: asc_def py_isspace_def py_split.simps)

lemma wc_fox: "length (py_split (asc ''summarize English: the quick b'')) = 5"
  by (simp add: asc_def py_isspace_def py_split.simps)

lemma take_fox:
  "take 30 (take 512 (asc ''summarize English: '' @ asc ''the quick brown fox''))
     = asc ''summarize English: the quick b''"
  by (simp add: asc_def)

lemma wc_sales: "length (py_split (asc ''summarize English: quarterly s'')) = 4"
  by (simp add: asc_def py_isspace_def py_split.simps)

lemma take_sales:
  "take 30 (take 512 (asc ''summarize English: '' @ asc ''quarterly sales rose in every region''))
     = asc ''summarize English: quarterly s''"
  by (simp add: asc_def)

lemma demo_summary:
  assumes "take 30 (take 512 (asc ''summarize English: '' @ t)) = echo"
    and "1 < length (py_split echo)"
  shows "generate_summary demo_hub TextProcessor_init empty_world t 30 10 (asc ''en'')
           = (Inr echo, loaded_processor,
              once_loaded_world\<lparr>generate_calls := [generation_params 30 10, fallback_params 30]\<rparr>)"
proof -
  let ?input = "\<lparr>input_ids = take 512 (asc ''summarize English: '' @ t),
                 attention_mask = replicate (min 512 (length (asc ''summarize English: '' @ t))) 1\<rparr>"
  let ?w1 = "once_loaded_world\<lparr>generate_calls := generate_calls once_loaded_world @ [generation_params 30 10]\<rparr>"
  have e: "encode char_tokenizer (language_prefix (asc ''en'') @ t) 512 (device loaded_processor)
             = Inr ?input"
    by (simp only: prefix_en encode_demo)
  have p: "generate_decode char_tokenizer echo_model once_loaded_world ?input (generation_params 30 10)
             = (Inr (asc ''Report''), ?w1)"
    by (rule primary_demo)
  have s: "length (py_split (remove_prefix (language_prefix (asc ''en'')) (asc ''Report''))) < 3"
    by (simp add: prefix_en report_kept wc_report)
  have f: "fst (generate_decode char_tokenizer echo_model ?w1 ?input (fallback_params 30)) = Inr echo"
    unfolding fallback_demo by (simp only: fst_conv input_encoding.select_convs assms(1))
  have g: "generate_calls once_loaded_world = []"
    by (simp add: once_loaded_world_def empty_world_def)
  note sf = summary_with_fallback [OF load_demo loaded_fields(1) loaded_fields(2) e p s,
      unfolded f prefix_en report_kept sum.case wc_report]
  show ?thesis
    using sf assms(2) by (simp add: g)
qed

text \<open>
  The theorem of claim C7 at the concrete model: the primary pass gives the one word
  \<open>Report\<close>, the fallback pass five words, and the fallback decode is returned.
\<close>

theorem fallback_acceptance_witness:
  "length (py_split (asc ''Report'')) < 3
   \<and> length (py_split (asc ''summarize English: the quick b'')) > length (py_split (asc ''Report''))
   \<and> fst (generate_summary demo_hub TextProcessor_init empty_world
            (asc ''the quick brown fox'') 30 10 (asc ''en''))
       = Inr (asc ''summarize English: the quick b'')"
proof -
  let ?t = "asc ''the quick brown fox''"
  let ?input = "\<lparr>input_ids = take 512 (asc ''summarize English: '' @ ?t),
                 attention_mask = replicate (min 512 (length (asc ''summarize English: '' @ ?t))) 1\<rparr>"
  let ?w1 = "once_loaded_world\<lparr>generate_calls := generate_calls once_loaded_world @ [generation_params 30 10]\<rparr>"
  have e: "encode char_tokenizer (language_prefix (asc ''en'') @ ?t) 512 (device loaded_processor)
             = Inr ?input"
    by (simp only: prefix_en encode_demo)
  have p: "generate_decode char_tokenizer echo_model once_loaded_world ?input (generation_params 30 10)
             = (Inr (asc ''Report''), ?w1)"
    by (rule primary_demo)
  have r: "asc ''Report'' = remove_prefix (language_prefix (asc ''en'')) (asc ''Report'')"
    by (simp only: prefix_en report_kept)
  have s: "length (py_split (asc ''Report'')) < 3"
    by (simp add: wc_report)
  have f: "Inr (asc ''summarize English: the quick b'')
             = fst (generate_decode char_tokenizer echo_model ?w1 ?input (fallback_params 30))"
    unfolding fallback_demo by (simp only: fst_conv input_encoding.select_convs take_fox)
  from fallback_acceptance [OF load_demo loaded_fields(1) loaded_fields(2) e p r s f]
  show ?thesis
    by (simp add: wc_report wc_fox)
qed

text \<open>
  The theorem of claim C2 at the concrete model: the two calls that are recorded.
\<close>

theorem fallback_call_parameters_witness:
  "length (py_split (remove_prefix (language_prefix (asc ''en'')) (asc ''Report''))) < 3
   \<and> generate_calls (snd (snd (generate_summary demo_hub TextProcessor_init empty_world
            (asc ''the quick brown fox'') 30 10 (asc ''en''))))
       = [generation_params 30 10, fallback_params 30]
   \<and> map_of (fallback_params 30) ''num_beams'' = Some (PyInt 1)"
proof -
  let ?t = "asc ''the quick brown fox''"
  let ?input = "\<lparr>input_ids = take 512 (asc ''summarize English: '' @ ?t),
                 attention_mask = replicate (min 512 (length (asc ''summarize English: '' @ ?t))) 1\<rparr>"
  let ?w1 = "once_loaded_world\<lparr>generate_calls := generate_calls once_loaded_world @ [generation_params 30 10]\<rparr>"
  have e: "encode char_tokenizer (language_prefix (asc ''en'') @ ?t) 512 (device loaded_processor)
             = Inr ?input"
    by (simp only: prefix_en encode_demo)
  have p: "generate_decode char_tokenizer echo_model once_loaded_world ?input (generation_params 30 10)
             = (Inr (asc ''Report''), ?w1)"
    by (rule primary_demo)
  have s: "length (py_split (remove_prefix (language_prefix (asc ''en'')) (asc ''Report''))) < 3"
    by (simp add: prefix_en report_kept wc_report)
  have g: "generate_calls once_loaded_world = []"
    by (simp add: once_loaded_world_def empty_world_def)
  from fallback_call_parameters [OF load_demo loaded_fields(1) loaded_fields(2) e p s] s g
  show ?thesis by simp
qed

text \<open>
  Claim C2 as it is stated fails: the request has \<open>min_length = 10\<close>, the primary call
  carries it, and the fallback call has no \<open>min_length\<close> at all.
\<close>

theorem fallback_min_length_counterexample:
  "generate_calls (snd (snd (generate_summary demo_hub TextProcessor_init empty_world
          (asc ''the quick brown fox'') 30 10 (asc ''en''))))
     = [generation_params 30 10, fallback_params 30]
   \<and> map_of (generation_params 30 10) ''min_length'' = Some (PyInt 10)
   \<and> map_of (fallback_params 30) ''min_length'' = None"
proof -
  have "1 < length (py_split (asc ''summarize English: the quick b''))"
    by (simp add: wc_fox)
  from demo_summary [OF take_fox this] show ?thesis
    by (simp add: generation_params_def fallback_params_def)
qed

text \<open>
  Claim C1 fails on the fallback path. With a model whose primary pass collapses to one
  word and whose pass with one beam echoes its input, the text returned for an English
  request is the fallback decode as it is, and it begins with the English prompt prefix:
  the removal of the prefix is applied to the primary decode only.
\<close>

theorem fallback_keeps_prefix:
  "fst (generate_summary demo_hub TextProcessor_init empty_world
          (asc ''quarterly sales rose in every region'') 30 10 (asc ''en''))
     = Inr (asc ''summarize English: quarterly s'')
   \<and> language_prefix (asc ''en'') = asc ''summarize English: ''
   \<and> py_startswith (asc ''summarize English: quarterly s'') (language_prefix (asc ''en''))"
proof -
  have "1 < length (py_split (asc ''summarize English: quarterly s''))"
    by (simp add: wc_sales)
  from demo_summary [OF take_sales this]
  have a: "fst (generate_summary demo_hub TextProcessor_init empty_world
          (asc ''quarterly sales rose in every region'') 30 10 (asc ''en''))
     = Inr (asc ''summarize English: quarterly s'')"
    by simp
  have b: "py_startswith (asc ''summarize English: quarterly s'') (asc ''summarize English: '')"
    by (simp add: py_startswith_def asc_def)
  from a b show ?thesis by (simp add: prefix_en)
qed

section \<open>Properties of loading and of the pipeline\<close>

lemma load_model_loaded:
  "model self \<noteq> None \<Longrightarrow> tokenizer self \<noteq> None \<Longrightarrow> load_model hb self w = (None, self, w)"
  by (simp add: load_model_def)

lemma load_model_success:
  assumes "load_model hb self w = (None, self1, w1)"
  shows "model self1 \<noteq> None \<and> tokenizer self1 \<noteq> None"
  using assms
  by (auto simp: load_model_def Let_def split: if_splits sum.splits option.splits)

lemma quality_gate_loads:
  "weight_loads (snd (quality_gate tok mdl w input max_length s)) = weight_loads w
   \<and> tokenizer_loads (snd (quality_gate tok mdl w input max_length s)) = tokenizer_loads w"
proof (cases "generate_decode tok mdl w input (fallback_params max_length)")
  case (Pair r w1)
  then have "w1 = w\<lparr>generate_calls := generate_calls w @ [fallback_params max_length]\<rparr>"
    using generate_decode_world [of tok mdl w input "fallback_params max_length"] by simp
  with Pair show ?thesis
    by (cases r) (simp_all add: quality_gate_def Let_def)
qed

lemma summary_body_loads:
  "weight_loads (snd (summary_body self w p t a b)) = weight_loads w
   \<and> tokenizer_loads (snd (summary_body self w p t a b)) = tokenizer_loads w"
proof (cases "tokenizer self")
  case None
  then show ?thesis by (simp add: summary_body_def)
next
  case (Some tok)
  note tok = this
  show ?thesis
  proof (cases "encode tok t 512 (device self)")
    case (Inl e)
    with tok show ?thesis by (simp add: summary_body_def)
  next
    case (Inr input)
    note inp = this
    show ?thesis
    proof (cases "model self")
      case None
      with tok inp show ?thesis by (simp add: summary_body_def)
    next
      case (Some mdl)
      obtain r w1 where gd: "generate_decode tok mdl w input (generation_params a b) = (r, w1)"
        by (cases "generate_decode tok mdl w input (generation_params a b)")
      then have w1: "w1 = w\<lparr>generate_calls := generate_calls w @ [generation_params a b]\<rparr>"
        using generate_decode_world [of tok mdl w input "generation_params a b"] by simp
      show ?thesis
      proof (cases r)
        case (Inl e)
        with tok inp Some gd w1 show ?thesis by (simp add: summary_body_def)
      next
        case (Inr raw)
        obtain s w2 where qg: "quality_gate tok mdl w1 input a (remove_prefix p raw) = (s, w2)"
          by (cases "quality_gate tok mdl w1 input a (remove_prefix p raw)")
        then have "weight_loads w2 = weight_loads w1 \<and> tokenizer_loads w2 = tokenizer_loads w1"
          using quality_gate_loads [of tok mdl w1 input a "remove_prefix p raw"] by simp
        with tok inp Some gd w1 Inr qg show ?thesis by (simp add: summary_body_def)
      qed
    qed
  qed
qed

lemma generate_summary_loaded:
  assumes "model self \<noteq> None" and "tokenizer self \<noteq> None"
  shows "fst (snd (generate_summary hb self w t a b l)) = self
       \<and> weight_loads (snd (snd (generate_summary hb self w t a b l))) = weight_loads w
       \<and> tokenizer_loads (snd (snd (generate_summary hb self w t a b l))) = tokenizer_loads w"
proof -
  have lm: "load_model hb self w = (None, self, w)"
    using assms by (rule load_model_loaded)
  obtain r w2 where sb: "summary_body self w (language_prefix l) (language_prefix l @ t) a b = (r, w2)"
    by (cases "summary_body self w (language_prefix l) (language_prefix l @ t) a b")
  then have "weight_loads w2 = weight_loads w \<and> tokenizer_loads w2 = tokenizer_loads w"
    using summary_body_loads [of self w "language_prefix l" "language_prefix l @ t" a b] by simp
  with lm sb show ?thesis
    by (cases r) (simp_all add: generate_summary_def Let_def)
qed

text \<open>
  Claim C5, as amended. The handle belongs to one \<open>TextProcessor\<close>. Once
  \<open>load_model\<close> has succeeded on a processor, its model and tokenizer are set, a later
  \<open>load_model\<close> on it does nothing, and every later \<open>generate_summary\<close> on it, in
  whatever state the process is by then, leaves the processor as it is and calls neither
  \<open>from_pretrained\<close> again.
\<close>

theorem load_once_per_instance:
  assumes "load_model hb self0 w0 = (None, self, w)"
  shows "model self \<noteq> None \<and> tokenizer self \<noteq> None
       \<and> load_model hb self w' = (None, self, w')
       \<and> fst (snd (generate_summary hb self w' t a b l)) = self
       \<and> weight_loads (snd (snd (generate_summary hb self w' t a b l))) = weight_loads w'
       \<and> tokenizer_loads (snd (snd (generate_summary hb self w' t a b l))) = tokenizer_loads w'"
proof -
  from assms have l: "model self \<noteq> None \<and> tokenizer self \<noteq> None"
    by (rule load_model_success)
  then have "load_model hb self w' = (None, self, w')"
    by (simp add: load_model_loaded)
  with l show ?thesis
    using generate_summary_loaded [of self hb w' t a b l] by simp
qed

text \<open>
  The theorem at a new processor that loads the concrete model in an empty process: one
  load of each kind, and the summary that follows adds none.
\<close>

theorem load_once_per_instance_witness:
  "load_model demo_hub TextProcessor_init empty_world = (None, loaded_processor, once_loaded_world)
   \<and> load_model demo_hub loaded_processor once_loaded_world = (None, loaded_processor, once_loaded_world)
   \<and> weight_loads once_loaded_world = 1
   \<and> weight_loads (snd (snd (generate_summary demo_hub loaded_processor once_loaded_world
        (asc ''the quick brown fox'') 30 10 (asc ''en'')))) = 1"
proof -
  have l: "load_model demo_hub TextProcessor_init empty_world
             = (None, loaded_processor, once_loaded_world)"
    by (rule load_demo)
  have "weight_loads once_loaded_world = 1"
    by (simp add: once_loaded_world_def)
  with load_once_per_instance [OF l, of once_loaded_world "asc ''the quick brown fox''" 30 10 "asc ''en''"] l
  show ?thesis by simp
qed

lemma process_file_read_failure:
  assumes "read_file pf (files w) file_path = Inl e"
  shows "process_file pf hb self w file_path language kw
           = (Inl (RuntimeError (file_failed @ str_of e)), self, w)"
  using assms by (simp add: process_file_def)

lemma read_file_missing:
  assumes "\<not> os_path_exists fsys file_path"
  shows "read_file pf fsys file_path = Inl (FileNotFoundError (file_missing @ file_path))"
  using assms by (simp add: read_file_def)

text \<open>
  Claim C3, as amended. For a path that does not exist, \<open>read_file\<close> raises
  \<open>FileNotFoundError\<close> with the path in its text, and \<open>process_file\<close> leaves the
  processor and the process as they were: no model is loaded and \<open>model.generate\<close> is
  not called. Every failure of a stage reaches the caller of \<open>process_file\<close> as a
  \<open>RuntimeError\<close> whose text is the fixed prefix followed by the text of the stage's
  exception; the class of that exception is not kept.
\<close>

theorem process_file_reports_failures:
  "(\<not> os_path_exists (files w) file_path \<longrightarrow>
      read_file pf (files w) file_path = Inl (FileNotFoundError (file_missing @ file_path))
      \<and> process_file pf hb self w file_path language kw
          = (Inl (RuntimeError (file_failed @ file_missing @ file_path)), self, w))
   \<and> (\<forall>e. read_file pf (files w) file_path = Inl e \<longrightarrow>
        process_file pf hb self w file_path language kw
          = (Inl (RuntimeError (file_failed @ str_of e)), self, w))
   \<and> (\<forall>file_content e self1 w1.
        read_file pf (files w) file_path = Inr file_content
        \<and> generate_summary hb self w file_content
              (case kw_max_length kw of None \<Rightarrow> 30 | Some n \<Rightarrow> n)
              (case kw_min_length kw of None \<Rightarrow> 10 | Some n \<Rightarrow> n) language
            = (Inl e, self1, w1) \<longrightarrow>
        process_file pf hb self w file_path language kw
          = (Inl (RuntimeError (file_failed @ str_of e)), self1, w1))
   \<and> (\<forall>e. fst (process_file pf hb self w file_path language kw) = Inl e \<longrightarrow>
        (\<exists>m. e = RuntimeError (file_failed @ m)))"
proof -
  have a: "\<not> os_path_exists (files w) file_path \<longrightarrow>
      read_file pf (files w) file_path = Inl (FileNotFoundError (file_missing @ file_path))
      \<and> process_file pf hb self w file_path language kw
          = (Inl (RuntimeError (file_failed @ file_missing @ file_path)), self, w)"
    using read_file_missing [of "files w" file_path pf]
      process_file_read_failure [of pf w file_path "FileNotFoundError (file_missing @ file_path)"]
    by simp
  have b: "\<forall>e. read_file pf (files w) file_path = Inl e \<longrightarrow>
        process_file pf hb self w file_path language kw
          = (Inl (RuntimeError (file_failed @ str_of e)), self, w)"
    by (simp add: process_file_read_failure)
  have c: "\<forall>file_content e self1 w1.
        read_file pf (files w) file_path = Inr file_content
        \<and> generate_summary hb self w file_content
              (case kw_max_length kw of None \<Rightarrow> 30 | Some n \<Rightarrow> n)
              (case kw_min_length kw of None \<Rightarrow> 10 | Some n \<Rightarrow> n) language
            = (Inl e, self1, w1) \<longrightarrow>
        process_file pf hb self w file_path language kw
          = (Inl (RuntimeError (file_failed @ str_of e)), self1, w1)"
    by (simp add: process_file_def)
  have d: "\<forall>e. fst (process_file pf hb self w file_path language kw) = Inl e \<longrightarrow>
        (\<exists>m. e = RuntimeError (file_failed @ m))"
    by (auto simp: process_file_def split: sum.splits prod.splits)
  from a b c d show ?thesis by blast
qed

text \<open>The theorem at a path that is missing from an empty file system.\<close>

theorem process_file_reports_failures_witness:
  "\<not> os_path_exists (files empty_world) (asc ''missing.txt'')
   \<and> read_file demo_platform (files empty_world) (asc ''missing.txt'')
       = Inl (FileNotFoundError (file_missing @ asc ''missing.txt''))
   \<and> process_file demo_platform demo_hub TextProcessor_init empty_world (asc ''missing.txt'')
        (asc ''en'') no_kwargs
       = (Inl (RuntimeError (file_failed @ file_missing @ asc ''missing.txt'')),
          TextProcessor_init, empty_world)
   \<and> generate_calls empty_world = []"
proof -
  have m: "\<not> os_path_exists (files empty_world) (asc ''missing.txt'')"
    by (simp add: os_path_exists_def empty_world_def)
  have g: "generate_calls empty_world = []"
    by (simp add: empty_world_def)
  from process_file_reports_failures
         [of empty_world "asc ''missing.txt''" demo_platform demo_hub TextProcessor_init
            "asc ''en''" no_kwargs] m g
  show ?thesis by blast
qed

text \<open>
  Claim C3 as it is stated fails. For a missing path the exception that leaves
  \<open>process_file\<close> is a \<open>RuntimeError\<close>, not \<open>FileNotFoundError\<close>; and for a file of
  an unsupported type the text of the error names the suffix and not the path.
\<close>

theorem process_file_error_kind_counterexample:
  "fst (process_file demo_platform demo_hub TextProcessor_init empty_world (asc ''missing.txt'')
       (asc ''en'') no_kwargs)
     = Inl (RuntimeError (file_failed @ file_missing @ asc ''missing.txt''))
   \<and> (\<forall>m. fst (process_file demo_platform demo_hub TextProcessor_init empty_world
                (asc ''missing.txt'') (asc ''en'') no_kwargs) \<noteq> Inl (FileNotFoundError m))
   \<and> fst (process_file demo_platform demo_hub TextProcessor_init pdf_world (asc ''/d/notes.pdf'')
       (asc ''en'') no_kwargs)
     = Inl (RuntimeError (file_failed @ unsupported_type @ asc ''.pdf''))"
proof -
  have a: "fst (process_file demo_platform demo_hub TextProcessor_init empty_world
              (asc ''missing.txt'') (asc ''en'') no_kwargs)
     = Inl (RuntimeError (file_failed @ file_missing @ asc ''missing.txt''))"
    by (simp add: process_file_def read_file_def os_path_exists_def empty_world_def)
  have s: "path_suffix_lower demo_platform (asc ''/d/notes.pdf'') = asc ''.pdf''"
    by (simp add: demo_platform_def posix_suffix_def posix_name_def ascii_lower_def asc_def)
  have n: "asc ''.pdf'' \<noteq> asc ''.txt''" "asc ''.pdf'' \<noteq> asc ''.docx''" "asc ''.pdf'' \<noteq> asc ''.doc''"
    by (simp_all add: asc_def)
  have "read_file demo_platform (files pdf_world) (asc ''/d/notes.pdf'')
          = Inl (ValueError (unsupported_type @ asc ''.pdf''))"
    using n by (simp add: read_file_def os_path_exists_def pdf_world_def empty_world_def s Let_def)
  then have b: "fst (process_file demo_platform demo_hub TextProcessor_init pdf_world
              (asc ''/d/notes.pdf'') (asc ''en'') no_kwargs)
     = Inl (RuntimeError (file_failed @ unsupported_type @ asc ''.pdf''))"
    by (simp add: process_file_read_failure)
  from a b show ?thesis by simp
qed

section \<open>The batch thread and the model handle\<close>

lemma load_fresh_demo:
  "load_model demo_hub TextProcessor_init w
     = (None, loaded_processor,
        w\<lparr>tokenizer_loads := tokenizer_loads w + 1, weight_loads := weight_loads w + 1\<rparr>)"
  by (simp add: load_model_def demo_hub_def TextProcessor_init_def loaded_processor_def Let_def)

lemma summary_body_world:
  "\<exists>cs. snd (summary_body self w p t a b) = w\<lparr>generate_calls := cs\<rparr>"
proof (cases "tokenizer self")
  case None
  then have "snd (summary_body self w p t a b) = w\<lparr>generate_calls := generate_calls w\<rparr>"
    by (simp add: summary_body_def)
  then show ?thesis by blast
next
  case (Some tok)
  note tok = this
  show ?thesis
  proof (cases "encode tok t 512 (device self)")
    case (Inl e)
    with tok have "snd (summary_body self w p t a b) = w\<lparr>generate_calls := generate_calls w\<rparr>"
      by (simp add: summary_body_def)
    then show ?thesis by blast
  next
    case (Inr input)
    note inp = this
    show ?thesis
    proof (cases "model self")
      case None
      with tok inp
      have "snd (summary_body self w p t a b) = w\<lparr>generate_calls := generate_calls w\<rparr>"
        by (simp add: summary_body_def)
      then show ?thesis by blast
    next
      case (Some mdl)
      obtain r w1 where gd: "generate_decode tok mdl w input (generation_params a b) = (r, w1)"
        by (cases "generate_decode tok mdl w input (generation_params a b)")
      then have w1: "w1 = w\<lparr>generate_calls := generate_calls w @ [generation_params a b]\<rparr>"
        using generate_decode_world [of tok mdl w input "generation_params a b"] by simp
      show ?thesis
      proof (cases r)
        case (Inl e)
        with tok inp Some gd w1
        have "snd (summary_body self w p t a b)
                = w\<lparr>generate_calls := generate_calls w @ [generation_params a b]\<rparr>"
          by (simp add: summary_body_def)
        then show ?thesis by blast
      next
        case (Inr raw)
        obtain s w2 where qg: "quality_gate tok mdl w1 input a (remove_prefix p raw) = (s, w2)"
          by (cases "quality_gate tok mdl w1 input a (remove_prefix p raw)")
        have "\<exists>cs. w2 = w1\<lparr>generate_calls := cs\<rparr>"
        proof (cases "length (py_split (remove_prefix p raw)) < 3")
          case True
          from quality_gate_short [OF True, of tok mdl w1 input a] qg
          have "w2 = w1\<lparr>generate_calls := generate_calls w1 @ [fallback_params a]\<rparr>"
            by simp
          then show ?thesis by blast
        next
          case False
          with qg have "w2 = w1\<lparr>generate_calls := generate_calls w1\<rparr>"
            by (simp add: quality_gate_def Let_def)
          then show ?thesis by blast
        qed
        then obtain cs where "w2 = w1\<lparr>generate_calls := cs\<rparr>" by blast
        with tok inp Some gd w1 Inr qg
        have "snd (summary_body self w p t a b) = w\<lparr>generate_calls := cs\<rparr>"
          by (simp add: summary_body_def)
        then show ?thesis by blast
      qed
    qed
  qed
qed

lemma generate_summary_fresh_demo:
  "\<exists>r cs. generate_summary demo_hub TextProcessor_init w t a b l
     = (r, loaded_processor,
        w\<lparr>tokenizer_loads := tokenizer_loads w + 1, weight_loads := weight_loads w + 1,
          generate_calls := cs\<rparr>)"
proof -
  let ?w0 = "w\<lparr>tokenizer_loads := tokenizer_loads w + 1, weight_loads := weight_loads w + 1\<rparr>"
  obtain r w2 where sb:
    "summary_body loaded_processor ?w0 (language_prefix l) (language_prefix l @ t) a b = (r, w2)"
    by (cases "summary_body loaded_processor ?w0 (language_prefix l) (language_prefix l @ t) a b")
  obtain cs where "w2 = ?w0\<lparr>generate_calls := cs\<rparr>"
    using summary_body_world [of loaded_processor ?w0 "language_prefix l" "language_prefix l @ t" a b]
      sb by auto
  with sb have "generate_summary demo_hub TextProcessor_init w t a b l
     = ((case r of Inl error \<Rightarrow> Inl (RuntimeError (summary_failed @ str_of error))
         | Inr summary \<Rightarrow> Inr summary), loaded_processor,
        w\<lparr>tokenizer_loads := tokenizer_loads w + 1, weight_loads := weight_loads w + 1,
          generate_calls := cs\<rparr>)"
    by (cases r) (simp_all add: generate_summary_def load_fresh_demo Let_def)
  then show ?thesis by blast
qed

lemma run_file_fresh_demo:
  assumes "read_file pf (files w) p = Inr content"
  shows "\<exists>r w'. run_file pf demo_hub w p = (r, w')
           \<and> weight_loads w' = weight_loads w + 1
           \<and> tokenizer_loads w' = tokenizer_loads w + 1
           \<and> (\<forall>q. q \<noteq> p \<and> files w q \<noteq> None \<longrightarrow> files w' q = files w q)"
proof -
  obtain r cs where gs:
    "generate_summary demo_hub TextProcessor_init w content 30 10 (asc ''en'')
       = (r, loaded_processor,
          w\<lparr>tokenizer_loads := tokenizer_loads w + 1, weight_loads := weight_loads w + 1,
            generate_calls := cs\<rparr>)"
    using generate_summary_fresh_demo [of w content 30 10 "asc ''en''"] by blast
  show ?thesis
  proof (cases r)
    case (Inl e)
    with assms gs show ?thesis
      by (simp add: run_file_def process_file_def TextProcessor_init_def Let_def)
  next
    case (Inr raw)
    with assms gs show ?thesis
      by (auto simp: run_file_def process_file_def Let_def os_path_exists_def)
  qed
qed

lemma read_file_txt_ok:
  assumes "fsys p = Some (File bs)" and "path_suffix_lower pf p = asc ''.txt''"
  shows "\<exists>c. read_file pf fsys p = Inr c"
proof -
  obtain e c where "read_txt_loop pf encodings bs = Some (e, c)"
    using read_txt_loop_some [of pf bs] by blast
  with assms show ?thesis
    by (simp add: read_file_def os_path_exists_def read_txt_def open_read_def Let_def)
qed

lemma demo_suffixes:
  "path_suffix_lower demo_platform (asc ''/d/a.txt'') = asc ''.txt''"
  "path_suffix_lower demo_platform (asc ''/d/b.txt'') = asc ''.txt''"
  by (simp_all add: demo_platform_def posix_suffix_def posix_name_def ascii_lower_def asc_def)

lemma two_files:
  "files two_files_world (asc ''/d/a.txt'') = Some (File (map of_nat (asc ''hello world again'')))"
  "files two_files_world (asc ''/d/b.txt'') = Some (File (map of_nat (asc ''another short text'')))"
  "asc ''/d/b.txt'' \<noteq> asc ''/d/a.txt''"
  "weight_loads two_files_world = 0"
  "tokenizer_loads two_files_world = 0"
  by (simp_all add: two_files_world_def empty_world_def asc_def)

text \<open>
  Claim C5 as it is stated fails. The batch thread makes a new \<open>TextProcessor\<close> for
  each file, so in one process a run over two text files calls each \<open>from_pretrained\<close>
  twice: the second file does not reuse the handle that the first one loaded.
\<close>

theorem run_reloads_counterexample:
  "weight_loads two_files_world = 0
   \<and> weight_loads (snd (snd (run demo_platform demo_hub [asc ''/d/a.txt'', asc ''/d/b.txt'']
        two_files_world))) = 2
   \<and> tokenizer_loads (snd (snd (run demo_platform demo_hub [asc ''/d/a.txt'', asc ''/d/b.txt'']
        two_files_world))) = 2"
proof -
  obtain c1 where "read_file demo_platform (files two_files_world) (asc ''/d/a.txt'') = Inr c1"
    using read_file_txt_ok [of "files two_files_world" "asc ''/d/a.txt''" _ demo_platform]
      two_files(1) demo_suffixes(1) by blast
  then obtain r1 w1 where
    f1: "run_file demo_platform demo_hub two_files_world (asc ''/d/a.txt'') = (r1, w1)"
    and l1: "weight_loads w1 = 1" "tokenizer_loads w1 = 1"
    and k1: "files w1 (asc ''/d/b.txt'') = files two_files_world (asc ''/d/b.txt'')"
    using run_file_fresh_demo [of demo_platform two_files_world "asc ''/d/a.txt''" c1]
      two_files by auto
  obtain c2 where "read_file demo_platform (files w1) (asc ''/d/b.txt'') = Inr c2"
    using read_file_txt_ok [of "files w1" "asc ''/d/b.txt''" _ demo_platform]
      k1 two_files(2) demo_suffixes(2) by auto
  then obtain r2 w2 where
    f2: "run_file demo_platform demo_hub w1 (asc ''/d/b.txt'') = (r2, w2)"
    and l2: "weight_loads w2 = 2" "tokenizer_loads w2 = 2"
    using run_file_fresh_demo [of demo_platform w1 "asc ''/d/b.txt''" c2] l1 by auto
  have "snd (snd (run demo_platform demo_hub [asc ''/d/a.txt'', asc ''/d/b.txt''] two_files_world))
          = w2"
    using f1 f2 by (cases r1; cases r2) (simp_all add: run_def)
  with l2 two_files(4) show ?thesis by simp
qed

end
